theory Spec2Isabelle
  imports Main
begin

section \<open>JavaScript values and built-ins used by compiler.js\<close>

text \<open>
  The values that flow through \<^verbatim>\<open>frontend/js/compiler.js\<close>: option fields, parsed JSON
  envelopes, callback arguments. Strings are lists of code units; numbers are the
  integer-valued ones (queue positions). How a number, an array or an object is
  converted to a string is left to the engine below.
\<close>

datatype jsval =
    JUndefined
  | JNull
  | JBool bool
  | JNum int
  | JStr string
  | JArr "jsval list"
  | JObj "(string \<times> jsval) list"

text \<open>Thrown values: error objects, of which the source only ever reads \<^verbatim>\<open>.message\<close>.\<close>

datatype exn = Error string | TypeError string | SyntaxError string

fun message_of :: "exn \<Rightarrow> string" where
  "message_of (Error m) = m"
| "message_of (TypeError m) = m"
| "message_of (SyntaxError m) = m"

text \<open>A byte of a chunk (\<^verbatim>\<open>Uint8Array\<close>); \<^typ>\<open>char\<close> has exactly the 256 byte values.\<close>

type_synonym byte = char

text \<open>
  The browser built-ins the source calls but does not define are parameters:
  \<^verbatim>\<open>JSON.parse\<close> (a value, or a thrown error), the streaming \<^verbatim>\<open>TextDecoder\<close> (its
  internal state is \<open>'d\<close>; \<^verbatim>\<open>decode(value, {stream: true})\<close> returns text and the
  next state), the wording of the TypeError raised when a property of
  \<^verbatim>\<open>null\<close> is read, and ToString on a value that is not a string (the text of a
  number, an array or an object, or the TypeError thrown for an object that cannot be
  converted).
\<close>

record 'd engine =
  json_parse :: "string \<Rightarrow> exn + jsval"
  decoder_init :: 'd
  decode :: "'d \<Rightarrow> byte list \<Rightarrow> string \<times> 'd"
  null_read_msg :: "string \<Rightarrow> string"
  to_string :: "jsval \<Rightarrow> exn + string"

text \<open>Truthiness, as \<^verbatim>\<open>||\<close> tests it.\<close>

fun truthy :: "jsval \<Rightarrow> bool" where
  "truthy JUndefined = False"
| "truthy JNull = False"
| "truthy (JBool b) = b"
| "truthy (JNum n) = (n \<noteq> 0)"
| "truthy (JStr s) = (s \<noteq> [])"
| "truthy (JArr xs) = True"
| "truthy (JObj kvs) = True"

definition js_or :: "jsval \<Rightarrow> jsval \<Rightarrow> jsval" where
  "js_or a b = (if truthy a then a else b)"

text \<open>
  The decimal digits of a natural number, as the template literal of lines 60 and 149
  prints \<^verbatim>\<open>response.status\<close> (an unsigned short in the Fetch standard).
\<close>

definition digit :: "nat \<Rightarrow> char" where
  "digit n = char_of (48 + n)"

function show_nat :: "nat \<Rightarrow> string" where
  "show_nat n = (if n < 10 then [digit n] else show_nat (n div 10) @ [digit (n mod 10)])"
  by pat_completeness auto
termination
  by (relation "measure (\<lambda>n. n)") auto

declare show_nat.simps [simp del]

text \<open>
  What \<^verbatim>\<open>throw new Error(x)\<close> throws. The message of the new error is \<open>x\<close> itself
  when \<open>x\<close> is a string, empty when \<open>x\<close> is \<^verbatim>\<open>undefined\<close>, and the engine's
  ToString of \<open>x\<close> otherwise; when that conversion throws, its TypeError is thrown in
  place of the new error.
\<close>

definition throw_new_Error :: "'d engine \<Rightarrow> jsval \<Rightarrow> exn" where
  "throw_new_Error eng x =
     (case x of
        JStr s \<Rightarrow> Error s
      | JUndefined \<Rightarrow> Error []
      | _ \<Rightarrow> (case to_string eng x of Inl e \<Rightarrow> e | Inr s \<Rightarrow> Error s))"

text \<open>
  Reading a property \<^verbatim>\<open>v.p\<close>, for the names the source reads (\<^verbatim>\<open>type\<close>,
  \<^verbatim>\<open>content\<close>, \<^verbatim>\<open>message\<close>; no prototype defines them): a TypeError on
  \<^verbatim>\<open>null\<close> and \<^verbatim>\<open>undefined\<close>, the own property of an object, \<^verbatim>\<open>undefined\<close>
  otherwise.
\<close>

fun get_prop :: "'d engine \<Rightarrow> jsval \<Rightarrow> string \<Rightarrow> exn + jsval" where
  "get_prop eng JUndefined p = Inl (TypeError (null_read_msg eng p))"
| "get_prop eng JNull p = Inl (TypeError (null_read_msg eng p))"
| "get_prop eng (JObj kvs) p = Inr (case map_of kvs p of None \<Rightarrow> JUndefined | Some v \<Rightarrow> v)"
| "get_prop eng v p = Inr JUndefined"

section \<open>Configuration, requests and responses\<close>

record config =
  backendUrl :: string

definition endpoint_compile :: string where "endpoint_compile = ''/compile''"
definition endpoint_compileSync :: string where "endpoint_compileSync = ''/compile/sync''"
definition endpoint_health :: string where "endpoint_health = ''/health''"
definition endpoint_connect :: string where "endpoint_connect = ''/connect''"

text \<open>
  The \<^verbatim>\<open>options\<close> argument; a field the caller left out is \<^verbatim>\<open>undefined\<close>.
  The \<^verbatim>\<open>source\<close> argument is the program text, a string.
\<close>

record options =
  powerPoles :: jsval
  blueprintName :: jsval
  noOptimize :: jsval
  jsonOutput :: jsval
  logLevel :: jsval

text \<open>
  The argument of \<^verbatim>\<open>fetch\<close>. \<open>payload\<close> is the object handed to
  \<^verbatim>\<open>JSON.stringify\<close>, kept as the ordered list of its fields.
\<close>

record http_request =
  url :: string
  http_method :: string
  headers :: "(string \<times> string) list"
  mode :: "string option"
  payload :: "(string \<times> jsval) list option"

text \<open>
  What \<^verbatim>\<open>reader.read()\<close> yields, call after call: a chunk of bytes and the rest,
  \<^verbatim>\<open>done\<close>, or a rejection.
\<close>

datatype body_stream =
    Value "byte list" body_stream
  | Done
  | ReadRejects exn

text \<open>
  A response: \<^verbatim>\<open>status\<close> (an unsigned short), what \<^verbatim>\<open>json()\<close> settles to, and
  \<^verbatim>\<open>body\<close>, which may be \<^verbatim>\<open>null\<close>.
\<close>

record response =
  status :: nat
  json :: "exn + jsval"
  body :: "body_stream option"

text \<open>\<^verbatim>\<open>response.ok\<close>, by the Fetch standard: the status is in the range 200 to 299.\<close>

definition ok :: "response \<Rightarrow> bool" where
  "ok r = (200 \<le> status r \<and> status r \<le> 299)"

datatype fetch_result = Rejected exn | Resolved response

type_synonym network = "http_request \<Rightarrow> fetch_result"

definition streaming_requestBody :: "string \<Rightarrow> options \<Rightarrow> (string \<times> jsval) list" where
  "streaming_requestBody source opts =
     [(''source'', JStr source),
      (''power_poles'', js_or (powerPoles opts) JNull),
      (''blueprint_name'', js_or (blueprintName opts) JNull),
      (''no_optimize'', js_or (noOptimize opts) (JBool False)),
      (''json_output'', JBool False),
      (''log_level'', js_or (logLevel opts) (JStr ''info''))]"

definition sync_requestBody :: "string \<Rightarrow> options \<Rightarrow> (string \<times> jsval) list" where
  "sync_requestBody source opts =
     [(''source'', JStr source),
      (''power_poles'', js_or (powerPoles opts) JNull),
      (''blueprint_name'', js_or (blueprintName opts) JNull),
      (''no_optimize'', js_or (noOptimize opts) (JBool False)),
      (''json_output'', js_or (jsonOutput opts) (JBool False)),
      (''log_level'', js_or (logLevel opts) (JStr ''info''))]"

definition post_json :: "string \<Rightarrow> (string \<times> jsval) list \<Rightarrow> http_request" where
  "post_json u requestBody =
     \<lparr>url = u, http_method = ''POST'',
      headers = [(''Content-Type'', ''application/json'')],
      mode = None, payload = Some requestBody\<rparr>"

text \<open>Lines 50-56 and 139-145: the argument of each \<^verbatim>\<open>fetch\<close>.\<close>

definition streaming_request :: "config \<Rightarrow> string \<Rightarrow> options \<Rightarrow> http_request" where
  "streaming_request cfg source opts =
     post_json (backendUrl cfg @ endpoint_compile) (streaming_requestBody source opts)"

definition sync_request :: "config \<Rightarrow> string \<Rightarrow> options \<Rightarrow> http_request" where
  "sync_request cfg source opts =
     post_json (backendUrl cfg @ endpoint_compileSync) (sync_requestBody source opts)"

text \<open>
  Lines 59 and 148: \<^verbatim>\<open>await response.json().catch(() => ({}))\<close>, the parsed body, or
  the empty object when the body cannot be parsed.
\<close>

definition errorData :: "response \<Rightarrow> jsval" where
  "errorData r = (case json r of Inl e \<Rightarrow> JObj [] | Inr v \<Rightarrow> v)"

text \<open>
  Lines 60 and 149: what is thrown on a response that is not ok. Reading
  \<^verbatim>\<open>.message\<close> of a body that parsed to \<^verbatim>\<open>null\<close> throws a TypeError; otherwise
  \<^verbatim>\<open>new Error\<close> is given the message field, or the fallback text when the field is
  falsy.
\<close>

definition server_error :: "'d engine \<Rightarrow> response \<Rightarrow> exn" where
  "server_error eng r =
     (case get_prop eng (errorData r) ''message'' of
        Inl e \<Rightarrow> e
      | Inr m \<Rightarrow>
          throw_new_Error eng (js_or m (JStr (''Server error: '' @ show_nat (status r)))))"

section \<open>Callbacks and the state of one invocation\<close>

datatype cb = OnLog | OnBlueprint | OnJson | OnError | OnStatus | OnQueue | OnComplete

text \<open>What an invocation does that can be observed from outside.\<close>

datatype effect = Invoke cb jsval | ConsoleError exn

text \<open>
  A callback runs on the caller's own state \<open>'u\<close> and its argument, and either
  returns or throws. Every callback is optional.
\<close>

type_synonym 'u callback = "'u \<Rightarrow> jsval \<Rightarrow> exn option \<times> 'u"

record 'u callbacks =
  onLog :: "'u callback option"
  onBlueprint :: "'u callback option"
  onJson :: "'u callback option"
  onError :: "'u callback option"
  onStatus :: "'u callback option"
  onQueue :: "'u callback option"
  onComplete :: "'u callback option"

text \<open>
  \<open>completeCalled\<close> is the latch of line 41; \<open>ust\<close> the caller's state; \<open>trace\<close> the
  callbacks invoked and diagnostics logged so far, oldest first; \<open>reads\<close> counts the
  calls of \<^verbatim>\<open>reader.read()\<close>.
\<close>

record 'u state =
  completeCalled :: bool
  ust :: 'u
  trace :: "effect list"
  reads :: nat

definition init_state :: "'u \<Rightarrow> 'u state" where
  "init_state u = \<lparr>completeCalled = False, ust = u, trace = [], reads = 0\<rparr>"

text \<open>\<^verbatim>\<open>f?.(arg)\<close>: nothing when \<open>f\<close> is absent; \<open>Some e\<close> in the result is a throw.\<close>

definition invoke ::
  "'u callback option \<Rightarrow> cb \<Rightarrow> jsval \<Rightarrow> 'u state \<Rightarrow> exn option \<times> 'u state" where
  "invoke f name arg st =
     (case f of
        None \<Rightarrow> (None, st)
      | Some g \<Rightarrow>
          (let (r, u') = g (ust st) arg
           in (r, st\<lparr>ust := u', trace := trace st @ [Invoke name arg]\<rparr>)))"

text \<open>Lines 42-47.\<close>

definition callComplete :: "'u callbacks \<Rightarrow> 'u state \<Rightarrow> exn option \<times> 'u state" where
  "callComplete cbs st =
     (if \<not> completeCalled st
      then invoke (onComplete cbs) OnComplete JUndefined (st\<lparr>completeCalled := True\<rparr>)
      else (None, st))"

definition console_error :: "exn \<Rightarrow> 'u state \<Rightarrow> 'u state" where
  "console_error e st = st\<lparr>trace := trace st @ [ConsoleError e]\<rparr>"

section \<open>The streaming client\<close>

text \<open>
  \<^verbatim>\<open>cb?.(event.content)\<close>: with \<open>cb\<close> absent the argument is not evaluated.
\<close>

definition invoke_content ::
  "'d engine \<Rightarrow> 'u callback option \<Rightarrow> cb \<Rightarrow> jsval \<Rightarrow> 'u state \<Rightarrow> exn option \<times> 'u state" where
  "invoke_content eng f name event st =
     (case f of
        None \<Rightarrow> (None, st)
      | Some g \<Rightarrow>
          (case get_prop eng event ''content'' of
             Inl e \<Rightarrow> (Some e, st)
           | Inr c \<Rightarrow> invoke f name c st))"

text \<open>Lines 88-110: the \<^verbatim>\<open>switch\<close> on \<^verbatim>\<open>event.type\<close> (strict equality with each label).\<close>

definition dispatch ::
  "'d engine \<Rightarrow> 'u callbacks \<Rightarrow> jsval \<Rightarrow> 'u state \<Rightarrow> exn option \<times> 'u state" where
  "dispatch eng cbs event st =
     (case get_prop eng event ''type'' of
        Inl e \<Rightarrow> (Some e, st)
      | Inr t \<Rightarrow>
          if t = JStr ''log'' then invoke_content eng (onLog cbs) OnLog event st
          else if t = JStr ''blueprint'' then invoke_content eng (onBlueprint cbs) OnBlueprint event st
          else if t = JStr ''json'' then invoke_content eng (onJson cbs) OnJson event st
          else if t = JStr ''error'' then invoke_content eng (onError cbs) OnError event st
          else if t = JStr ''status'' then invoke_content eng (onStatus cbs) OnStatus event st
          else if t = JStr ''queue'' then invoke_content eng (onQueue cbs) OnQueue event st
          else if t = JStr ''end'' then callComplete cbs st
          else (None, st))"

text \<open>Lines 86-110: the body of the inner \<^verbatim>\<open>try\<close>.\<close>

definition parse_and_dispatch ::
  "'d engine \<Rightarrow> 'u callbacks \<Rightarrow> string \<Rightarrow> 'u state \<Rightarrow> exn option \<times> 'u state" where
  "parse_and_dispatch eng cbs data st =
     (case json_parse eng data of
        Inl e \<Rightarrow> (Some e, st)
      | Inr event \<Rightarrow> dispatch eng cbs event st)"

definition startsWith :: "string \<Rightarrow> string \<Rightarrow> bool" where
  "startsWith s p = (take (length p) s = p)"

text \<open>Lines 82-114: one line of the stream, with the inner \<^verbatim>\<open>catch\<close>.\<close>

definition process_line :: "'d engine \<Rightarrow> 'u callbacks \<Rightarrow> string \<Rightarrow> 'u state \<Rightarrow> 'u state" where
  "process_line eng cbs line st =
     (if startsWith line ''data: '' then
        (let data = drop 6 line in
         case parse_and_dispatch eng cbs data st of
           (None, st') \<Rightarrow> st'
         | (Some e, st') \<Rightarrow> console_error e st')
      else st)"

text \<open>Line 81: the \<^verbatim>\<open>for\<close> loop over the complete lines.\<close>

fun process_lines :: "'d engine \<Rightarrow> 'u callbacks \<Rightarrow> string list \<Rightarrow> 'u state \<Rightarrow> 'u state" where
  "process_lines eng cbs [] st = st"
| "process_lines eng cbs (line # rest) st = process_lines eng cbs rest (process_line eng cbs line st)"

text \<open>
  \<^verbatim>\<open>s.split('\n')\<close>: the pieces between newlines, always at least one. \<open>split_from cur s\<close>
  has \<open>cur\<close> as the piece being read.
\<close>

definition newline :: char where
  "newline = CHR 0x0A"

fun split_from :: "string \<Rightarrow> string \<Rightarrow> string list" where
  "split_from cur [] = [cur]"
| "split_from cur (c # cs) =
     (if c = newline then cur # split_from [] cs else split_from (cur @ [c]) cs)"

definition split_newline :: "string \<Rightarrow> string list" where
  "split_newline s = split_from [] s"

text \<open>
  Lines 68-116: the read loop. \<open>dec\<close> is the decoder's state and \<open>buffer\<close> the text kept
  from the previous read; \<^verbatim>\<open>lines.pop()\<close> takes the last piece off as the new buffer.
\<close>

fun read_loop ::
  "'d engine \<Rightarrow> 'u callbacks \<Rightarrow> body_stream \<Rightarrow> 'd \<Rightarrow> string \<Rightarrow> 'u state \<Rightarrow> exn option \<times> 'u state" where
  "read_loop eng cbs Done dec buffer st = (None, st\<lparr>reads := reads st + 1\<rparr>)"
| "read_loop eng cbs (ReadRejects e) dec buffer st = (Some e, st\<lparr>reads := reads st + 1\<rparr>)"
| "read_loop eng cbs (Value v rest) dec buffer st =
     (let (decoded, dec') = decode eng dec v;
          lines = split_newline (buffer @ decoded)
      in read_loop eng cbs rest dec' (last lines)
           (process_lines eng cbs (butlast lines) (st\<lparr>reads := reads st + 1\<rparr>)))"

text \<open>Lines 50-118: the body of the outer \<^verbatim>\<open>try\<close>.\<close>

definition try_streaming ::
  "'d engine \<Rightarrow> network \<Rightarrow> 'u callbacks \<Rightarrow> http_request \<Rightarrow> 'u state \<Rightarrow> exn option \<times> 'u state" where
  "try_streaming eng net cbs req st =
     (case net req of
        Rejected e \<Rightarrow> (Some e, st)
      | Resolved r \<Rightarrow>
          if \<not> ok r then (Some (server_error eng r), st)
          else (case body r of
                  None \<Rightarrow> (Some (TypeError (null_read_msg eng ''getReader'')), st)
                | Some rd \<Rightarrow>
                    (case read_loop eng cbs rd (decoder_init eng) [] st of
                       (Some e, st') \<Rightarrow> (Some e, st')
                     | (None, st') \<Rightarrow> callComplete cbs st')))"

text \<open>Lines 120-123: the outer \<^verbatim>\<open>catch\<close>.\<close>

definition report_failure :: "'u callbacks \<Rightarrow> exn \<Rightarrow> 'u state \<Rightarrow> exn option \<times> 'u state" where
  "report_failure cbs error st =
     (case invoke (onError cbs) OnError (JStr (message_of error)) st of
        (Some e, st') \<Rightarrow> (Some e, st')
      | (None, st') \<Rightarrow> callComplete cbs st')"

text \<open>
  Lines 29-124. The result is how the promise settles (\<open>None\<close>: fulfilled; \<open>Some e\<close>:
  rejected with \<open>e\<close>) and the final state.
\<close>

definition compileWithStreaming ::
  "'d engine \<Rightarrow> config \<Rightarrow> network \<Rightarrow> string \<Rightarrow> options \<Rightarrow> 'u callbacks \<Rightarrow> 'u
     \<Rightarrow> exn option \<times> 'u state" where
  "compileWithStreaming eng cfg net source opts cbs u =
     (case try_streaming eng net cbs (streaming_request cfg source opts) (init_state u) of
        (None, st) \<Rightarrow> (None, st)
      | (Some error, st) \<Rightarrow> report_failure cbs error st)"

section \<open>The synchronous client and the probes\<close>

text \<open>Lines 129-153. \<open>Inl\<close> is the rejection of the returned promise.\<close>

definition compileSync ::
  "'d engine \<Rightarrow> config \<Rightarrow> network \<Rightarrow> string \<Rightarrow> options \<Rightarrow> exn + jsval" where
  "compileSync eng cfg net source opts =
     (case net (sync_request cfg source opts) of
        Rejected e \<Rightarrow> Inl e
      | Resolved r \<Rightarrow> if \<not> ok r then Inl (server_error eng r) else json r)"

text \<open>Lines 158-183: the body of each \<^verbatim>\<open>try\<close>, then the function with its \<^verbatim>\<open>catch\<close>.\<close>

definition probe :: "network \<Rightarrow> http_request \<Rightarrow> exn + bool" where
  "probe net req = (case net req of Rejected e \<Rightarrow> Inl e | Resolved r \<Rightarrow> Inr (ok r))"

definition health_request :: "config \<Rightarrow> http_request" where
  "health_request cfg =
     \<lparr>url = backendUrl cfg @ endpoint_health, http_method = ''GET'', headers = [],
      mode = Some ''cors'', payload = None\<rparr>"

definition connect_request :: "config \<Rightarrow> http_request" where
  "connect_request cfg =
     \<lparr>url = backendUrl cfg @ endpoint_connect, http_method = ''POST'', headers = [],
      mode = Some ''cors'', payload = None\<rparr>"

definition checkHealth :: "config \<Rightarrow> network \<Rightarrow> exn + bool" where
  "checkHealth cfg net =
     (case probe net (health_request cfg) of Inl e \<Rightarrow> Inr False | Inr b \<Rightarrow> Inr b)"

definition connect :: "config \<Rightarrow> network \<Rightarrow> exn + bool" where
  "connect cfg net =
     (case probe net (connect_request cfg) of Inl e \<Rightarrow> Inr False | Inr b \<Rightarrow> Inr b)"

section \<open>Vocabulary of the properties\<close>

text \<open>The bytes a body stream carries, how it ends, and how many reads consume it.\<close>

fun stream_bytes :: "body_stream \<Rightarrow> byte list" where
  "stream_bytes (Value v rest) = v @ stream_bytes rest"
| "stream_bytes Done = []"
| "stream_bytes (ReadRejects e) = []"

fun stream_end :: "body_stream \<Rightarrow> exn option" where
  "stream_end (Value v rest) = stream_end rest"
| "stream_end Done = None"
| "stream_end (ReadRejects e) = Some e"

fun stream_reads :: "body_stream \<Rightarrow> nat" where
  "stream_reads (Value v rest) = Suc (stream_reads rest)"
| "stream_reads Done = 1"
| "stream_reads (ReadRejects e) = 1"

text \<open>
  The contract of a streaming text decoder: decoding nothing yields nothing, and decoding
  a byte sequence in two pieces yields the text of decoding it in one (a character
  whose bytes straddle the cut is held back in the decoder's state).
\<close>

definition streaming_decoder :: "'d engine \<Rightarrow> bool" where
  "streaming_decoder eng =
     ((\<forall>d. decode eng d [] = ([], d)) \<and>
      (\<forall>d a b. decode eng d (a @ b) =
         (let (x, d') = decode eng d a; (y, d'') = decode eng d' b in (x @ y, d''))))"

text \<open>The text of a whole stream, and its complete lines: those a newline closes.\<close>

definition stream_text :: "'d engine \<Rightarrow> body_stream \<Rightarrow> string" where
  "stream_text eng s = fst (decode eng (decoder_init eng) (stream_bytes s))"

definition complete_lines :: "string \<Rightarrow> string list" where
  "complete_lines txt = butlast (split_newline txt)"

text \<open>
  The routing of the claims, in their words: each event type with the callback it is
  delivered to. \<^verbatim>\<open>end\<close> is the seventh known type and triggers completion.
\<close>

definition routes :: "(string \<times> cb \<times> ('u callbacks \<Rightarrow> 'u callback option)) list" where
  "routes =
     [(''log'', OnLog, onLog), (''blueprint'', OnBlueprint, onBlueprint),
      (''json'', OnJson, onJson), (''error'', OnError, onError),
      (''status'', OnStatus, onStatus), (''queue'', OnQueue, onQueue)]"

definition known_types :: "string list" where
  "known_types = [''log'', ''blueprint'', ''json'', ''error'', ''status'', ''queue'', ''end'']"

text \<open>
  What the function does once the read loop has ended, given how the stream ended: the
  \<^verbatim>\<open>callComplete\<close> of line 118 on a stream that closed, and the handler of lines
  120-123 on a failure.
\<close>

definition settle :: "'u callbacks \<Rightarrow> exn option \<Rightarrow> 'u state \<Rightarrow> exn option \<times> 'u state" where
  "settle cbs ending st =
     (case ending of
        Some e \<Rightarrow> report_failure cbs e st
      | None \<Rightarrow>
          (case callComplete cbs st of
             (None, st') \<Rightarrow> (None, st')
           | (Some e, st') \<Rightarrow> report_failure cbs e st'))"

text \<open>A line that carries an end envelope.\<close>

definition is_end_line :: "'d engine \<Rightarrow> string \<Rightarrow> bool" where
  "is_end_line eng l =
     (startsWith l ''data: '' \<and>
      (case json_parse eng (drop 6 l) of
         Inl e \<Rightarrow> False
       | Inr ev \<Rightarrow> get_prop eng ev ''type'' = Inr (JStr ''end'')))"

text \<open>Invocations of \<^verbatim>\<open>onComplete\<close> in a trace.\<close>

fun is_complete :: "effect \<Rightarrow> bool" where
  "is_complete (Invoke c a) = (c = OnComplete)"
| "is_complete (ConsoleError e) = False"

definition complete_count :: "effect list \<Rightarrow> nat" where
  "complete_count tr = length (filter is_complete tr)"

text \<open>
  The latch and the trace agree: \<^verbatim>\<open>onComplete\<close> has been invoked once if the latch is
  set and the callback supplied, and not at all otherwise.
\<close>

definition latch_inv :: "'u callbacks \<Rightarrow> 'u state \<Rightarrow> bool" where
  "latch_inv cbs st =
     (complete_count (trace st) = (if completeCalled st \<and> onComplete cbs \<noteq> None then 1 else 0))"

section \<open>Sample inputs\<close>

text \<open>
  A decoder for single-byte text: every byte is one code unit, and there is nothing to
  hold back between chunks.
\<close>

definition latin1_decode :: "unit \<Rightarrow> byte list \<Rightarrow> string \<times> unit" where
  "latin1_decode d bs = (bs, d)"

text \<open>What \<^verbatim>\<open>JSON.parse\<close> returns on the texts the sample streams carry.\<close>

definition sample_table :: "(string \<times> jsval) list" where
  \<open>sample_table =
     [(''{"type":"log","content":"parsing"}'',
         JObj [(''type'', JStr ''log''), (''content'', JStr ''parsing'')]),
      (''{"type":"blueprint","content":"0eNG..."}'',
         JObj [(''type'', JStr ''blueprint''), (''content'', JStr ''0eNG...'')]),
      (''{"type":"queue","content":2}'',
         JObj [(''type'', JStr ''queue''), (''content'', JNum 2)]),
      (''{"type":"progress","content":"50"}'',
         JObj [(''type'', JStr ''progress''), (''content'', JStr ''50'')]),
      (''{"type":"end","content":""}'',
         JObj [(''type'', JStr ''end''), (''content'', JStr '''')]),
      (''null'', JNull)]\<close>

definition sample_parse :: "string \<Rightarrow> exn + jsval" where
  "sample_parse s =
     (case map_of sample_table s of
        None \<Rightarrow> Inl (SyntaxError ''Unexpected token'')
      | Some v \<Rightarrow> Inr v)"

text \<open>A wording for the TypeError on \<^verbatim>\<open>null\<close>, after that of V8.\<close>

definition sample_null_msg :: "string \<Rightarrow> string" where
  "sample_null_msg p = ''Cannot read properties of null (reading '' @ p @ '')''"

text \<open>
  What ToString returns on a few values that are not strings; any other is answered
  as an object that cannot be converted, in the wording of V8.
\<close>

definition sample_to_string :: "jsval \<Rightarrow> exn + string" where
  "sample_to_string v =
     (case map_of [(JNull, ''null''), (JBool True, ''true''), (JBool False, ''false'')] v of
        None \<Rightarrow> Inl (TypeError ''Cannot convert object to primitive value'')
      | Some s \<Rightarrow> Inr s)"

definition sample_engine :: "unit engine" where
  "sample_engine =
     \<lparr>json_parse = sample_parse, decoder_init = (), decode = latin1_decode,
      null_read_msg = sample_null_msg, to_string = sample_to_string\<rparr>"

text \<open>
  Callbacks over a counter of invocations: one that returns, one that throws.
\<close>

definition counting :: "nat callback" where
  "counting n a = (None, Suc n)"

definition failing :: "nat callback" where
  "failing n a = (Some (Error ''handler failed''), Suc n)"

definition all_callbacks :: "nat callbacks" where
  "all_callbacks =
     \<lparr>onLog = Some counting, onBlueprint = Some counting, onJson = Some counting,
      onError = Some counting, onStatus = Some counting, onQueue = Some counting,
      onComplete = Some counting\<rparr>"

definition failing_onError :: "nat callbacks" where
  "failing_onError = all_callbacks\<lparr>onError := Some failing\<rparr>"

definition sample_options :: options where
  "sample_options =
     \<lparr>powerPoles = JUndefined, blueprintName = JUndefined, noOptimize = JBool False,
      jsonOutput = JUndefined, logLevel = JStr ''info''\<rparr>"

definition sample_config :: config where
  "sample_config = \<lparr>backendUrl = ''http://localhost:8000''\<rparr>"

text \<open>Networks: no answer at all, a fixed answer, a stream from the compile endpoint.\<close>

definition net_unreachable :: network where
  "net_unreachable req = Rejected (TypeError ''Failed to fetch'')"

text \<open>
  A log, a blueprint and an end envelope, each followed by a blank line, in three chunks:
  the first cut falls inside the log line, the second between the two newlines after
  the blueprint.
\<close>

definition sample_stream :: body_stream where
  \<open>sample_stream =
     Value ''data: {"type":"log","con''
       (Value (''tent":"parsing"}'' @ [newline, newline]
               @ ''data: {"type":"blueprint","content":"0eNG..."}'' @ [newline])
         (Value ([newline] @ ''data: {"type":"end","content":""}'' @ [newline, newline]) Done))\<close>

definition error_response :: "nat \<Rightarrow> exn + jsval \<Rightarrow> response" where
  "error_response code parsed = \<lparr>status = code, json = parsed, body = Some Done\<rparr>"

definition net_responding :: "response \<Rightarrow> network" where
  "net_responding r req = Resolved r"

definition syntax_error_body :: jsval where
  "syntax_error_body = JObj [(''message'', JStr ''syntax error line 3'')]"

definition empty_message_body :: jsval where
  "empty_message_body = JObj [(''message'', JStr [])]"

definition compile_result :: jsval where
  "compile_result = JObj [(''blueprint'', JStr ''0eNG...'')]"

definition ok_response :: "jsval \<Rightarrow> response" where
  "ok_response parsed = \<lparr>status = 200, json = Inr parsed, body = Some Done\<rparr>"

definition full_options :: options where
  "full_options =
     \<lparr>powerPoles = JStr ''medium'', blueprintName = JStr ''Blinker'', noOptimize = JBool True,
      jsonOutput = JBool True, logLevel = JStr ''debug''\<rparr>"

definition undefined_options :: options where
  "undefined_options =
     \<lparr>powerPoles = JUndefined, blueprintName = JUndefined, noOptimize = JUndefined,
      jsonOutput = JUndefined, logLevel = JUndefined\<rparr>"

definition streaming_response :: "body_stream \<Rightarrow> response" where
  "streaming_response s =
     \<lparr>status = 200, json = Inl (SyntaxError ''Unexpected token''), body = Some s\<rparr>"

definition net_streaming :: "body_stream \<Rightarrow> network" where
  "net_streaming s req =
     (if url req = ''http://localhost:8000/compile''
      then Resolved (streaming_response s)
      else Rejected (TypeError ''Failed to fetch''))"

text \<open>Single lines and the envelopes they parse to; the same stream in other cuts.\<close>

definition sample_log_line :: string where
  \<open>sample_log_line = ''data: {"type":"log","content":"parsing"}''\<close>

definition sample_log_event :: jsval where
  "sample_log_event = JObj [(''type'', JStr ''log''), (''content'', JStr ''parsing'')]"

definition sample_end_line :: string where
  \<open>sample_end_line = ''data: {"type":"end","content":""}''\<close>

definition sample_end_event :: jsval where
  "sample_end_event = JObj [(''type'', JStr ''end''), (''content'', JStr [])]"

definition malformed_line :: string where
  \<open>malformed_line = ''data: {"type":''\<close>

definition failing_onLog :: "nat callbacks" where
  "failing_onLog = all_callbacks\<lparr>onLog := Some failing\<rparr>"

definition failing_onComplete :: "nat callbacks" where
  "failing_onComplete = all_callbacks\<lparr>onComplete := Some failing\<rparr>"

definition sample_blueprint_line :: string where
  \<open>sample_blueprint_line = ''data: {"type":"blueprint","content":"0eNG..."}''\<close>

definition sample_stream_whole :: body_stream where
  "sample_stream_whole =
     Value (sample_log_line @ [newline, newline] @ sample_blueprint_line @ [newline, newline]
            @ sample_end_line @ [newline, newline]) Done"

definition unterminated_stream :: body_stream where
  "unterminated_stream = Value (sample_log_line @ [newline]) (Value sample_blueprint_line Done)"

definition log_then_close :: body_stream where
  "log_then_close = Value (sample_log_line @ [newline]) Done"

section \<open>Auxiliary facts\<close>

subsection \<open>Splitting at newlines\<close>

lemma split_from_nonempty: "split_from cur s \<noteq> []"
  by (induction s arbitrary: cur) simp_all

lemma split_from_append:
  "split_from cur (a @ b) = butlast (split_from cur a) @ split_from (last (split_from cur a)) b"
  by (induction a arbitrary: cur) (simp_all add: split_from_nonempty)

lemma split_from_acc:
  "newline \<notin> set cur \<Longrightarrow> split_from acc (cur @ s) = split_from (acc @ cur) s"
  by (induction cur arbitrary: acc) auto

lemma split_from_no_newline:
  "newline \<notin> set cur \<Longrightarrow> \<forall>l \<in> set (split_from cur s). newline \<notin> set l"
proof (induction s arbitrary: cur)
  case Nil
  then show ?case by simp
next
  case (Cons a s)
  show ?case
  proof (cases "a = newline")
    case True
    have "\<forall>l \<in> set (split_from [] s). newline \<notin> set l"
      using Cons.IH [of "[]"] by simp
    with True Cons.prems show ?thesis by simp
  next
    case False
    have "newline \<notin> set (cur @ [a])"
      using False Cons.prems by auto
    from Cons.IH [OF this] False show ?thesis by simp
  qed
qed

lemma last_split_no_newline: "newline \<notin> set (last (split_newline s))"
proof -
  have "last (split_from [] s) \<in> set (split_from [] s)"
    by (simp add: split_from_nonempty)
  then show ?thesis
    using split_from_no_newline [of "[]" s] by (simp add: split_newline_def)
qed

lemma split_newline_append:
  "split_newline (a @ b) = butlast (split_newline a) @ split_newline (last (split_newline a) @ b)"
proof -
  have "newline \<notin> set (last (split_from [] a))"
    using last_split_no_newline [of a] by (simp add: split_newline_def)
  from split_from_acc [OF this, of "[]" b]
  have "split_from [] (last (split_from [] a) @ b) = split_from (last (split_from [] a)) b"
    by simp
  then show ?thesis
    using split_from_append [of "[]" a b] by (simp add: split_newline_def)
qed

lemma split_no_newline: "newline \<notin> set buf \<Longrightarrow> split_newline buf = [buf]"
  using split_from_acc [of buf "[]" "[]"] by (simp add: split_newline_def)

lemma split_newline_nonempty: "split_newline s \<noteq> []"
  by (simp add: split_newline_def split_from_nonempty)

lemma complete_lines_append:
  "complete_lines (a @ b) = complete_lines a @ complete_lines (last (split_newline a) @ b)"
  by (simp add: complete_lines_def split_newline_append [of a b] butlast_append split_newline_nonempty)

subsection \<open>The read counter is independent of line processing\<close>

lemma invoke_reads:
  "invoke f name a (st\<lparr>reads := n\<rparr>) = (fst (invoke f name a st), (snd (invoke f name a st))\<lparr>reads := n\<rparr>)"
  by (simp add: invoke_def split: option.splits prod.splits)

lemma callComplete_reads:
  "callComplete cbs (st\<lparr>reads := n\<rparr>) = (fst (callComplete cbs st), (snd (callComplete cbs st))\<lparr>reads := n\<rparr>)"
  by (simp add: callComplete_def invoke_def split: option.splits prod.splits)

lemma invoke_content_reads:
  "invoke_content eng f name ev (st\<lparr>reads := n\<rparr>) =
     (fst (invoke_content eng f name ev st), (snd (invoke_content eng f name ev st))\<lparr>reads := n\<rparr>)"
  by (simp add: invoke_content_def invoke_reads split: option.splits sum.splits)

lemma dispatch_reads:
  "dispatch eng cbs ev (st\<lparr>reads := n\<rparr>) =
     (fst (dispatch eng cbs ev st), (snd (dispatch eng cbs ev st))\<lparr>reads := n\<rparr>)"
  unfolding dispatch_def
  by (cases "get_prop eng ev ''type''") (simp_all add: invoke_content_reads callComplete_reads)

lemma parse_and_dispatch_reads:
  "parse_and_dispatch eng cbs d (st\<lparr>reads := n\<rparr>) =
     (fst (parse_and_dispatch eng cbs d st), (snd (parse_and_dispatch eng cbs d st))\<lparr>reads := n\<rparr>)"
  unfolding parse_and_dispatch_def
  by (cases "json_parse eng d") (simp_all add: dispatch_reads)

lemma process_line_reads:
  "process_line eng cbs l (st\<lparr>reads := n\<rparr>) = (process_line eng cbs l st)\<lparr>reads := n\<rparr>"
proof (cases "parse_and_dispatch eng cbs (drop 6 l) st")
  case (Pair r st')
  then show ?thesis
    by (cases r) (simp_all add: process_line_def parse_and_dispatch_reads console_error_def)
qed

lemma process_lines_reads:
  "process_lines eng cbs ls (st\<lparr>reads := n\<rparr>) = (process_lines eng cbs ls st)\<lparr>reads := n\<rparr>"
  by (induction ls arbitrary: st) (simp_all add: process_line_reads)

lemma process_lines_append:
  "process_lines eng cbs (xs @ ys) st = process_lines eng cbs ys (process_lines eng cbs xs st)"
  by (induction xs arbitrary: st) simp_all

subsection \<open>The read loop processes the complete lines of the whole text\<close>

lemma read_loop_spec:
  assumes dec: "streaming_decoder eng"
  shows "newline \<notin> set buf \<Longrightarrow>
    read_loop eng cbs s d buf st =
      (stream_end s,
       (process_lines eng cbs (complete_lines (buf @ fst (decode eng d (stream_bytes s)))) st)
         \<lparr>reads := reads st + stream_reads s\<rparr>)"
proof (induction s arbitrary: d buf st)
  case Done
  then show ?case using dec by (simp add: streaming_decoder_def complete_lines_def split_no_newline)
next
  case (ReadRejects e)
  then show ?case using dec by (simp add: streaming_decoder_def complete_lines_def split_no_newline)
next
  case (Value v rest)
  obtain x d' where x: "decode eng d v = (x, d')" by (cases "decode eng d v")
  obtain y d'' where y: "decode eng d' (stream_bytes rest) = (y, d'')"
    by (cases "decode eng d' (stream_bytes rest)")
  have whole: "decode eng d (v @ stream_bytes rest) = (x @ y, d'')"
    using dec x y by (simp add: streaming_decoder_def)
  let ?lines = "split_newline (buf @ x)"
  have nl: "newline \<notin> set (last ?lines)" by (rule last_split_no_newline)
  have "read_loop eng cbs (Value v rest) d buf st =
          read_loop eng cbs rest d' (last ?lines)
            (process_lines eng cbs (butlast ?lines) (st\<lparr>reads := reads st + 1\<rparr>))"
    using x by (simp add: Let_def)
  also have "\<dots> = (stream_end rest,
       (process_lines eng cbs (complete_lines (last ?lines @ y))
          (process_lines eng cbs (butlast ?lines) (st\<lparr>reads := reads st + 1\<rparr>)))
         \<lparr>reads := reads (process_lines eng cbs (butlast ?lines) (st\<lparr>reads := reads st + 1\<rparr>))
                     + stream_reads rest\<rparr>)"
    using Value.IH [OF nl, of d'] y by simp
  also have "\<dots> = (stream_end (Value v rest),
       (process_lines eng cbs (complete_lines ((buf @ x) @ y)) st)
         \<lparr>reads := reads st + stream_reads (Value v rest)\<rparr>)"
  proof -
    have "complete_lines ((buf @ x) @ y) = butlast ?lines @ complete_lines (last ?lines @ y)"
      by (simp only: complete_lines_append [of "buf @ x" y]) (simp add: complete_lines_def)
    then show ?thesis
      by (simp only: process_lines_append process_lines_reads) simp
  qed
  finally show ?case using whole by simp
qed

subsection \<open>The latch agrees with the trace\<close>

lemma invoke_latch:
  "name \<noteq> OnComplete \<Longrightarrow> latch_inv cbs st \<Longrightarrow> latch_inv cbs (snd (invoke f name a st))"
  by (auto simp: invoke_def latch_inv_def complete_count_def split: option.splits prod.splits if_splits)

lemma invoke_completeCalled:
  "completeCalled (snd (invoke f name a st)) = completeCalled st"
  by (simp add: invoke_def split: option.splits prod.splits)

lemma callComplete_latch:
  "latch_inv cbs st \<Longrightarrow> latch_inv cbs (snd (callComplete cbs st))"
  by (auto simp: callComplete_def invoke_def latch_inv_def complete_count_def
      split: option.splits prod.splits if_splits)

lemma callComplete_completeCalled:
  "completeCalled (snd (callComplete cbs st))"
  by (simp add: callComplete_def invoke_completeCalled)

lemma invoke_content_latch:
  "name \<noteq> OnComplete \<Longrightarrow> latch_inv cbs st \<Longrightarrow> latch_inv cbs (snd (invoke_content eng f name ev st))"
  by (simp add: invoke_content_def invoke_latch split: option.splits sum.splits)

lemma dispatch_latch:
  "latch_inv cbs st \<Longrightarrow> latch_inv cbs (snd (dispatch eng cbs ev st))"
  unfolding dispatch_def
  by (cases "get_prop eng ev ''type''") (simp_all add: invoke_content_latch callComplete_latch)

lemma parse_and_dispatch_latch:
  "latch_inv cbs st \<Longrightarrow> latch_inv cbs (snd (parse_and_dispatch eng cbs d st))"
  unfolding parse_and_dispatch_def
  by (cases "json_parse eng d") (simp_all add: dispatch_latch)

lemma console_error_latch:
  "latch_inv cbs st \<Longrightarrow> latch_inv cbs (console_error e st)"
  by (simp add: console_error_def latch_inv_def complete_count_def)

lemma process_line_latch:
  assumes "latch_inv cbs st"
  shows "latch_inv cbs (process_line eng cbs l st)"
proof (cases "parse_and_dispatch eng cbs (drop 6 l) st")
  case (Pair r st')
  with parse_and_dispatch_latch [OF assms, of eng "drop 6 l"] have "latch_inv cbs st'" by simp
  with Pair assms show ?thesis
    by (cases r) (simp_all add: process_line_def console_error_latch)
qed

lemma process_lines_latch:
  "latch_inv cbs st \<Longrightarrow> latch_inv cbs (process_lines eng cbs ls st)"
  by (induction ls arbitrary: st) (simp_all add: process_line_latch)

lemma reads_update_latch:
  "latch_inv cbs (st\<lparr>reads := n\<rparr>) = latch_inv cbs st"
  by (simp add: latch_inv_def)

lemma read_loop_latch:
  "latch_inv cbs st \<Longrightarrow> latch_inv cbs (snd (read_loop eng cbs s d buf st))"
proof (induction s arbitrary: d buf st)
  case (Value v rest)
  obtain x d' where x: "decode eng d v = (x, d')" by (cases "decode eng d v")
  have "latch_inv cbs (process_lines eng cbs (butlast (split_newline (buf @ x))) (st\<lparr>reads := reads st + 1\<rparr>))"
    using Value.prems by (simp add: process_lines_latch reads_update_latch)
  from Value.IH [OF this] x show ?case by (simp add: Let_def)
qed (simp_all add: latch_inv_def)

lemma init_state_latch: "latch_inv cbs (init_state u)"
  by (simp add: latch_inv_def init_state_def complete_count_def)

lemma try_streaming_latch:
  assumes "latch_inv cbs st"
  shows "latch_inv cbs (snd (try_streaming eng net cbs req st))"
proof (cases "net req")
  case (Rejected e)
  with assms show ?thesis by (simp add: try_streaming_def)
next
  case (Resolved r)
  show ?thesis
  proof (cases "ok r \<and> body r \<noteq> None")
    case False
    with Resolved assms show ?thesis by (auto simp: try_streaming_def)
  next
    case True
    then obtain rd where rd: "body r = Some rd" by auto
    obtain x st' where loop: "read_loop eng cbs rd (decoder_init eng) [] st = (x, st')"
      by (cases "read_loop eng cbs rd (decoder_init eng) [] st")
    with read_loop_latch [OF assms, of eng rd "decoder_init eng" "[]"]
    have "latch_inv cbs st'" by simp
    with Resolved True rd loop show ?thesis
      by (cases x) (simp_all add: try_streaming_def callComplete_latch)
  qed
qed

lemma try_streaming_fulfilled:
  assumes "fst (try_streaming eng net cbs req st) = None"
  shows "completeCalled (snd (try_streaming eng net cbs req st))"
proof (cases "net req")
  case (Rejected e)
  with assms show ?thesis by (simp add: try_streaming_def)
next
  case (Resolved r)
  show ?thesis
  proof (cases "ok r \<and> body r \<noteq> None")
    case False
    with Resolved assms show ?thesis by (auto simp: try_streaming_def)
  next
    case True
    then obtain rd where rd: "body r = Some rd" by auto
    obtain x st' where loop: "read_loop eng cbs rd (decoder_init eng) [] st = (x, st')"
      by (cases "read_loop eng cbs rd (decoder_init eng) [] st")
    with Resolved True rd assms show ?thesis
      by (cases x) (simp_all add: try_streaming_def callComplete_completeCalled)
  qed
qed

lemma invoke_no_throw:
  "\<forall>f. cbf = Some f \<longrightarrow> (\<forall>v a. fst (f v a) = None) \<Longrightarrow> fst (invoke cbf name a st) = None"
proof (cases cbf)
  case None
  then show ?thesis by (simp add: invoke_def)
next
  case (Some g)
  assume "\<forall>f. cbf = Some f \<longrightarrow> (\<forall>v a. fst (f v a) = None)"
  with Some have "fst (g (ust st) a) = None" by simp
  with Some show ?thesis
    by (cases "g (ust st) a") (simp add: invoke_def)
qed

lemma compileWithStreaming_latch:
  "latch_inv cbs (snd (compileWithStreaming eng cfg net source opts cbs u))"
proof -
  let ?req = "streaming_request cfg source opts"
  obtain x st where ts: "try_streaming eng net cbs ?req (init_state u) = (x, st)"
    by (cases "try_streaming eng net cbs ?req (init_state u)")
  with try_streaming_latch [OF init_state_latch, of cbs eng net ?req u]
  have st: "latch_inv cbs st" by simp
  show ?thesis
  proof (cases x)
    case None
    with ts st show ?thesis by (simp add: compileWithStreaming_def report_failure_def)
  next
    case (Some error)
    obtain y st' where inv: "invoke (onError cbs) OnError (JStr (message_of error)) st = (y, st')"
      by (cases "invoke (onError cbs) OnError (JStr (message_of error)) st")
    with invoke_latch [OF _ st, of OnError "onError cbs" "JStr (message_of error)"]
    have "latch_inv cbs st'" by simp
    with ts Some inv show ?thesis
      by (cases y) (simp_all add: compileWithStreaming_def report_failure_def callComplete_latch)
  qed
qed

lemma compileWithStreaming_completeCalled:
  assumes "fst (compileWithStreaming eng cfg net source opts cbs u) = None
           \<or> (\<forall>f. onError cbs = Some f \<longrightarrow> (\<forall>v a. fst (f v a) = None))"
  shows "completeCalled (snd (compileWithStreaming eng cfg net source opts cbs u))"
proof -
  let ?req = "streaming_request cfg source opts"
  obtain x st where ts: "try_streaming eng net cbs ?req (init_state u) = (x, st)"
    by (cases "try_streaming eng net cbs ?req (init_state u)")
  show ?thesis
  proof (cases x)
    case None
    with ts try_streaming_fulfilled [of eng net cbs ?req "init_state u"]
    show ?thesis by (simp add: compileWithStreaming_def report_failure_def)
  next
    case (Some error)
    obtain y st' where inv: "invoke (onError cbs) OnError (JStr (message_of error)) st = (y, st')"
      by (cases "invoke (onError cbs) OnError (JStr (message_of error)) st")
    show ?thesis
    proof (cases y)
      case None
      with ts Some inv show ?thesis
        by (simp add: compileWithStreaming_def report_failure_def callComplete_completeCalled)
    next
      case (Some e)
      with ts \<open>x = Some error\<close> inv
      have res: "compileWithStreaming eng cfg net source opts cbs u = (Some e, st')"
        by (simp add: compileWithStreaming_def report_failure_def)
      with assms have "\<forall>f. onError cbs = Some f \<longrightarrow> (\<forall>v a. fst (f v a) = None)" by simp
      from invoke_no_throw [OF this, of OnError "JStr (message_of error)" st] inv Some
      show ?thesis by simp
    qed
  qed
qed

section \<open>Completion fires once\<close>

text \<open>
  C1, as the code has it. In every invocation of \<^verbatim>\<open>compileWithStreaming\<close>, whatever
  the request, the callbacks and the outcome of the stream, \<^verbatim>\<open>onComplete\<close> is invoked
  at most once. When it is supplied it is invoked exactly once if the returned promise
  is fulfilled, and so whenever \<^verbatim>\<open>onError\<close> is absent or never throws. (The handler
  of line 120 calls \<^verbatim>\<open>onError\<close> before \<^verbatim>\<open>callComplete\<close>, outside any inner
  \<^verbatim>\<open>try\<close>: an \<^verbatim>\<open>onError\<close> that throws there leaves the function.)
\<close>

theorem onComplete_at_most_once:
  "complete_count (trace (snd (compileWithStreaming eng cfg net source opts cbs u))) \<le> 1
   \<and> (onComplete cbs \<noteq> None \<longrightarrow>
        (fst (compileWithStreaming eng cfg net source opts cbs u) = None
         \<or> (\<forall>f. onError cbs = Some f \<longrightarrow> (\<forall>v a. fst (f v a) = None))) \<longrightarrow>
        complete_count (trace (snd (compileWithStreaming eng cfg net source opts cbs u))) = 1)"
  using compileWithStreaming_latch [of cbs eng cfg net source opts u]
    compileWithStreaming_completeCalled [of eng cfg net source opts cbs u]
  by (auto simp: latch_inv_def split: if_splits)


text \<open>
  The sample stream carries a log, a blueprint and an end envelope in three chunks and
  then closes: two triggers of completion, one invocation.
\<close>

theorem onComplete_at_most_once_witness:
  "onComplete all_callbacks \<noteq> None
   \<and> fst (compileWithStreaming sample_engine sample_config (net_streaming sample_stream)
           ''Signal a = 1;'' sample_options all_callbacks 0) = None
   \<and> complete_count (trace (snd (compileWithStreaming sample_engine sample_config
           (net_streaming sample_stream) ''Signal a = 1;'' sample_options all_callbacks 0))) = 1"
proof -
  have supplied: "onComplete all_callbacks \<noteq> None"
    by (simp add: all_callbacks_def)
  have fulfilled: "fst (compileWithStreaming sample_engine sample_config
      (net_streaming sample_stream) ''Signal a = 1;'' sample_options all_callbacks 0) = None"
    by code_simp
  from onComplete_at_most_once [of sample_engine sample_config "net_streaming sample_stream"
      "''Signal a = 1;''" sample_options all_callbacks 0] supplied fulfilled
  show ?thesis by blast
qed

text \<open>
  C1 as stated fails: the request cannot be sent, \<^verbatim>\<open>onError\<close> throws in the handler,
  and \<^verbatim>\<open>onComplete\<close>, though supplied, is never invoked.
\<close>

theorem onComplete_skipped_when_onError_throws:
  "onComplete failing_onError \<noteq> None
   \<and> fst (compileWithStreaming sample_engine sample_config net_unreachable
           ''Signal a = 1;'' sample_options failing_onError 0) = Some (Error ''handler failed'')
   \<and> complete_count (trace (snd (compileWithStreaming sample_engine sample_config
           net_unreachable ''Signal a = 1;'' sample_options failing_onError 0))) = 0"
  by code_simp

section \<open>A response that is not ok\<close>

lemma show_nat_nonempty: "show_nat n \<noteq> []"
  by (subst show_nat.simps) simp


text \<open>
  The case the theorems below leave out: a body that parses to \<^verbatim>\<open>null\<close> makes the
  read of \<^verbatim>\<open>.message\<close> throw, and that TypeError is what is reported or thrown.
\<close>

lemma server_error_null_body:
  "json r = Inr JNull \<Longrightarrow> server_error eng r = TypeError (null_read_msg eng ''message'')"
  by (simp add: server_error_def errorData_def)

text \<open>
  They also leave out a message field that is truthy and not a string: what
  \<^verbatim>\<open>new Error\<close> makes of it is the engine's, and may be a TypeError.
\<close>

lemma server_error_unconvertible:
  "get_prop eng (errorData r) ''message'' = Inr (JObj kvs) \<Longrightarrow>
   to_string eng (JObj kvs) = Inl e \<Longrightarrow> server_error eng r = e"
  by (simp add: server_error_def js_or_def throw_new_Error_def)

lemma server_error_text:
  "get_prop eng (errorData r) ''message'' = Inr m \<Longrightarrow> m = JStr s \<or> \<not> truthy m \<Longrightarrow>
   server_error eng r =
     Error (if truthy m then s else ''Server error: '' @ show_nat (status r))"
  by (auto simp: server_error_def js_or_def throw_new_Error_def)





section \<open>The synchronous client\<close>

lemma compileSync_returns:
  "compileSync eng cfg net source opts = Inr v \<Longrightarrow>
   \<exists>r. net (sync_request cfg source opts) = Resolved r \<and> ok r \<and> json r = Inr v"
  by (cases "net (sync_request cfg source opts)") (auto simp: compileSync_def split: if_splits)

lemma compileSync_fails:
  "net (sync_request cfg source opts) = Resolved r \<Longrightarrow> \<not> ok r \<Longrightarrow>
   get_prop eng (errorData r) ''message'' = Inr m \<Longrightarrow> m = JStr s \<or> \<not> truthy m \<Longrightarrow>
   compileSync eng cfg net source opts =
     Inl (Error (if truthy m then s else ''Server error: '' @ show_nat (status r)))"
  using server_error_text [of eng r m s] by (simp add: compileSync_def)

text \<open>
  C6, as the code has it. \<^verbatim>\<open>compileSync\<close> returns a value only when the response is
  ok, and the value is then the whole parsed body. On a response that is not ok the call
  fails; when reading \<^verbatim>\<open>.message\<close> of the parsed body succeeds with a value that is
  a string \<open>s\<close> or falsy, it fails with an \<^verbatim>\<open>Error\<close> whose message is \<open>s\<close> if that
  is a string that is not empty, and \<^verbatim>\<open>Server error: <status>\<close> otherwise.
\<close>

theorem compileSync_result_only_on_success:
  "(compileSync eng cfg net source opts = Inr v \<longrightarrow>
      (\<exists>r. net (sync_request cfg source opts) = Resolved r \<and> ok r \<and> json r = Inr v))
   \<and> (net (sync_request cfg source opts) = Resolved r \<and> \<not> ok r
        \<longrightarrow> (\<exists>e. compileSync eng cfg net source opts = Inl e))
   \<and> (net (sync_request cfg source opts) = Resolved r \<and> \<not> ok r
        \<and> get_prop eng (errorData r) ''message'' = Inr m \<and> (m = JStr s \<or> \<not> truthy m) \<longrightarrow>
      compileSync eng cfg net source opts =
        Inl (Error (if truthy m then s else ''Server error: '' @ show_nat (status r))))"
proof (intro conjI impI)
  assume "compileSync eng cfg net source opts = Inr v"
  then show "\<exists>r. net (sync_request cfg source opts) = Resolved r \<and> ok r \<and> json r = Inr v"
    by (rule compileSync_returns)
next
  assume "net (sync_request cfg source opts) = Resolved r \<and> \<not> ok r"
  then show "\<exists>e. compileSync eng cfg net source opts = Inl e"
    by (simp add: compileSync_def)
next
  assume "net (sync_request cfg source opts) = Resolved r \<and> \<not> ok r
        \<and> get_prop eng (errorData r) ''message'' = Inr m \<and> (m = JStr s \<or> \<not> truthy m)"
  then show "compileSync eng cfg net source opts =
        Inl (Error (if truthy m then s else ''Server error: '' @ show_nat (status r)))"
    using compileSync_fails [of net cfg source opts r eng m s] by blast
qed

text \<open>One server answers 200 with a result, another 500 with a message.\<close>

theorem compileSync_result_only_on_success_witness:
  "compileSync sample_engine sample_config (net_responding (ok_response compile_result))
       ''Signal a = 1;'' sample_options = Inr compile_result
   \<and> ok (ok_response compile_result)
   \<and> \<not> ok (error_response 500 (Inr syntax_error_body))
   \<and> compileSync sample_engine sample_config
         (net_responding (error_response 500 (Inr syntax_error_body)))
         ''Signal a = 1;'' sample_options = Inl (Error ''syntax error line 3'')"
proof -
  let ?good = "ok_response compile_result"
  let ?bad = "error_response 500 (Inr syntax_error_body)"
  have returned: "compileSync sample_engine sample_config (net_responding ?good)
       ''Signal a = 1;'' sample_options = Inr compile_result"
    by (simp add: compileSync_def net_responding_def ok_response_def ok_def)
  have bad: "net_responding ?bad (sync_request sample_config ''Signal a = 1;'' sample_options)
        = Resolved ?bad \<and> \<not> ok ?bad
      \<and> get_prop sample_engine (errorData ?bad) ''message'' = Inr (JStr ''syntax error line 3'')"
    by (simp add: net_responding_def ok_def error_response_def errorData_def syntax_error_body_def)
  from returned
    compileSync_result_only_on_success [where eng = sample_engine and cfg = sample_config
      and net = "net_responding ?good" and source = "''Signal a = 1;''"
      and opts = sample_options and v = compile_result and r = ?good]
  have "\<exists>r. net_responding ?good (sync_request sample_config ''Signal a = 1;'' sample_options)
      = Resolved r \<and> ok r \<and> json r = Inr compile_result"
    by blast
  then have good: "ok ?good"
    by (simp add: net_responding_def)
  from bad
    compileSync_result_only_on_success [where eng = sample_engine and cfg = sample_config
      and net = "net_responding ?bad" and source = "''Signal a = 1;''"
      and opts = sample_options and v = compile_result and r = ?bad
      and m = "JStr ''syntax error line 3''" and s = "''syntax error line 3''"]
  have "compileSync sample_engine sample_config (net_responding ?bad)
      ''Signal a = 1;'' sample_options = Inl (Error ''syntax error line 3'')"
    by simp
  with returned good bad show ?thesis by simp
qed

text \<open>
  C6 as stated fails: the body \<^verbatim>\<open>{"message": ""}\<close> has a message field, and the error
  carries the fallback text rather than that field.
\<close>

theorem compileSync_empty_message_gives_fallback:
  "map_of [(''message'', JStr [])] ''message'' = Some (JStr [])
   \<and> errorData (error_response 500 (Inr empty_message_body)) = JObj [(''message'', JStr [])]
   \<and> \<not> ok (error_response 500 (Inr empty_message_body))
   \<and> compileSync sample_engine sample_config
         (net_responding (error_response 500 (Inr empty_message_body)))
         ''Signal a = 1;'' sample_options = Inl (Error ''Server error: 500'')"
  by code_simp

section \<open>The probes\<close>

text \<open>
  C7. \<^verbatim>\<open>checkHealth\<close> and \<^verbatim>\<open>connect\<close> never throw: each returns a boolean, false
  when the request fails to be sent or answered and when the status is outside 200 to
  299, true when the status is within.
\<close>

theorem probes_never_throw:
  "checkHealth cfg net =
     Inr (case net (health_request cfg) of
            Rejected e \<Rightarrow> False
          | Resolved r \<Rightarrow> 200 \<le> status r \<and> status r \<le> 299)
   \<and> connect cfg net =
     Inr (case net (connect_request cfg) of
            Rejected e \<Rightarrow> False
          | Resolved r \<Rightarrow> 200 \<le> status r \<and> status r \<le> 299)"
  by (simp add: checkHealth_def connect_def probe_def ok_def split: fetch_result.splits)

section \<open>The request bodies\<close>

text \<open>
  C8. Both paths send the fields \<^verbatim>\<open>source\<close>, \<^verbatim>\<open>power_poles\<close>,
  \<^verbatim>\<open>blueprint_name\<close>, \<^verbatim>\<open>no_optimize\<close>, \<^verbatim>\<open>json_output\<close>, \<^verbatim>\<open>log_level\<close>, in
  this order, as the payload of their request. \<^verbatim>\<open>source\<close> is the program text. Each
  of \<^verbatim>\<open>power_poles\<close>, \<^verbatim>\<open>blueprint_name\<close>, \<^verbatim>\<open>no_optimize\<close> and \<^verbatim>\<open>log_level\<close>
  is the caller's option when that is truthy, and otherwise \<^verbatim>\<open>null\<close>, \<^verbatim>\<open>null\<close>,
  \<^verbatim>\<open>false\<close> and \<^verbatim>\<open>'info'\<close>: so a text that is not empty, or a boolean, is sent as
  it is, and an option left out takes its default, whatever the other options are.
  On the streaming path \<^verbatim>\<open>json_output\<close> is false whatever the caller's
  \<^verbatim>\<open>jsonOutput\<close>; on the synchronous path it is the caller's boolean, and false when
  that is left out.
\<close>

theorem request_body_fields:
  "streaming_requestBody source opts =
     [(''source'', JStr source),
      (''power_poles'', if truthy (powerPoles opts) then powerPoles opts else JNull),
      (''blueprint_name'', if truthy (blueprintName opts) then blueprintName opts else JNull),
      (''no_optimize'', if truthy (noOptimize opts) then noOptimize opts else JBool False),
      (''json_output'', JBool False),
      (''log_level'', if truthy (logLevel opts) then logLevel opts else JStr ''info'')]
   \<and> sync_requestBody source opts =
     [(''source'', JStr source),
      (''power_poles'', if truthy (powerPoles opts) then powerPoles opts else JNull),
      (''blueprint_name'', if truthy (blueprintName opts) then blueprintName opts else JNull),
      (''no_optimize'', if truthy (noOptimize opts) then noOptimize opts else JBool False),
      (''json_output'', if truthy (jsonOutput opts) then jsonOutput opts else JBool False),
      (''log_level'', if truthy (logLevel opts) then logLevel opts else JStr ''info'')]
   \<and> payload (streaming_request cfg source opts) = Some (streaming_requestBody source opts)
   \<and> payload (sync_request cfg source opts) = Some (sync_requestBody source opts)
   \<and> map fst (streaming_requestBody source opts) =
     [''source'', ''power_poles'', ''blueprint_name'', ''no_optimize'', ''json_output'', ''log_level'']
   \<and> map fst (sync_requestBody source opts) =
     [''source'', ''power_poles'', ''blueprint_name'', ''no_optimize'', ''json_output'', ''log_level'']
   \<and> map_of (streaming_requestBody source opts) ''source'' = Some (JStr source)
   \<and> map_of (sync_requestBody source opts) ''source'' = Some (JStr source)
   \<and> map_of (streaming_requestBody source (opts\<lparr>powerPoles := JStr (c # t)\<rparr>)) ''power_poles''
       = Some (JStr (c # t))
   \<and> map_of (streaming_requestBody source (opts\<lparr>powerPoles := JUndefined\<rparr>)) ''power_poles''
       = Some JNull
   \<and> map_of (streaming_requestBody source (opts\<lparr>blueprintName := JStr (c # t)\<rparr>)) ''blueprint_name''
       = Some (JStr (c # t))
   \<and> map_of (streaming_requestBody source (opts\<lparr>blueprintName := JUndefined\<rparr>)) ''blueprint_name''
       = Some JNull
   \<and> map_of (streaming_requestBody source (opts\<lparr>noOptimize := JBool b\<rparr>)) ''no_optimize''
       = Some (JBool b)
   \<and> map_of (streaming_requestBody source (opts\<lparr>noOptimize := JUndefined\<rparr>)) ''no_optimize''
       = Some (JBool False)
   \<and> map_of (streaming_requestBody source (opts\<lparr>logLevel := JStr (c # t)\<rparr>)) ''log_level''
       = Some (JStr (c # t))
   \<and> map_of (streaming_requestBody source (opts\<lparr>logLevel := JUndefined\<rparr>)) ''log_level''
       = Some (JStr ''info'')
   \<and> map_of (streaming_requestBody source (opts\<lparr>jsonOutput := JBool b\<rparr>)) ''json_output''
       = Some (JBool False)
   \<and> map_of (sync_requestBody source (opts\<lparr>powerPoles := JStr (c # t)\<rparr>)) ''power_poles''
       = Some (JStr (c # t))
   \<and> map_of (sync_requestBody source (opts\<lparr>powerPoles := JUndefined\<rparr>)) ''power_poles''
       = Some JNull
   \<and> map_of (sync_requestBody source (opts\<lparr>blueprintName := JStr (c # t)\<rparr>)) ''blueprint_name''
       = Some (JStr (c # t))
   \<and> map_of (sync_requestBody source (opts\<lparr>blueprintName := JUndefined\<rparr>)) ''blueprint_name''
       = Some JNull
   \<and> map_of (sync_requestBody source (opts\<lparr>noOptimize := JBool b\<rparr>)) ''no_optimize''
       = Some (JBool b)
   \<and> map_of (sync_requestBody source (opts\<lparr>noOptimize := JUndefined\<rparr>)) ''no_optimize''
       = Some (JBool False)
   \<and> map_of (sync_requestBody source (opts\<lparr>logLevel := JStr (c # t)\<rparr>)) ''log_level''
       = Some (JStr (c # t))
   \<and> map_of (sync_requestBody source (opts\<lparr>logLevel := JUndefined\<rparr>)) ''log_level''
       = Some (JStr ''info'')
   \<and> map_of (sync_requestBody source (opts\<lparr>jsonOutput := JBool b\<rparr>)) ''json_output''
       = Some (JBool b)
   \<and> map_of (sync_requestBody source (opts\<lparr>jsonOutput := JUndefined\<rparr>)) ''json_output''
       = Some (JBool False)
   \<and> streaming_requestBody source undefined_options =
     [(''source'', JStr source), (''power_poles'', JNull), (''blueprint_name'', JNull),
      (''no_optimize'', JBool False), (''json_output'', JBool False),
      (''log_level'', JStr ''info'')]
   \<and> sync_requestBody source undefined_options =
     [(''source'', JStr source), (''power_poles'', JNull), (''blueprint_name'', JNull),
      (''no_optimize'', JBool False), (''json_output'', JBool False),
      (''log_level'', JStr ''info'')]"
  by (simp add: streaming_requestBody_def sync_requestBody_def undefined_options_def js_or_def
      streaming_request_def sync_request_def post_json_def)

text \<open>
  A caller that sets every option: each reaches the body as given, but for
  \<^verbatim>\<open>jsonOutput\<close> on the streaming path.
\<close>

lemma request_body_of_full_options:
  "streaming_requestBody ''Signal a = 1;'' full_options =
     [(''source'', JStr ''Signal a = 1;''), (''power_poles'', JStr ''medium''),
      (''blueprint_name'', JStr ''Blinker''), (''no_optimize'', JBool True),
      (''json_output'', JBool False), (''log_level'', JStr ''debug'')]
   \<and> sync_requestBody ''Signal a = 1;'' full_options =
     [(''source'', JStr ''Signal a = 1;''), (''power_poles'', JStr ''medium''),
      (''blueprint_name'', JStr ''Blinker''), (''no_optimize'', JBool True),
      (''json_output'', JBool True), (''log_level'', JStr ''debug'')]"
  by code_simp

section \<open>Lines of the stream\<close>

lemma process_line_other: "\<not> startsWith line ''data: '' \<Longrightarrow> process_line eng cbs line st = st"
  by (simp add: process_line_def)

lemma process_line_data:
  "startsWith line ''data: '' \<Longrightarrow> json_parse eng (drop 6 line) = Inr ev \<Longrightarrow>
   process_line eng cbs line st =
     (case dispatch eng cbs ev st of (None, st') \<Rightarrow> st' | (Some e, st') \<Rightarrow> console_error e st')"
  by (simp add: process_line_def parse_and_dispatch_def)

lemma process_line_malformed:
  "startsWith line ''data: '' \<Longrightarrow> json_parse eng (drop 6 line) = Inl e \<Longrightarrow>
   process_line eng cbs line st = st\<lparr>trace := trace st @ [ConsoleError e]\<rparr>"
  by (simp add: process_line_def parse_and_dispatch_def console_error_def)

lemma get_prop_defined:
  "get_prop eng ev p = Inr t \<Longrightarrow> \<exists>c. get_prop eng ev q = Inr c"
  by (cases ev) simp_all

lemma dispatch_route:
  "(tn, name, sel) \<in> set routes \<Longrightarrow> get_prop eng ev ''type'' = Inr (JStr tn) \<Longrightarrow>
   dispatch eng cbs ev st = invoke_content eng (sel cbs) name ev st"
  by (auto simp: routes_def dispatch_def)

lemma dispatch_end:
  "get_prop eng ev ''type'' = Inr (JStr ''end'') \<Longrightarrow> dispatch eng cbs ev st = callComplete cbs st"
  by (simp add: dispatch_def)

lemma dispatch_unknown:
  "get_prop eng ev ''type'' = Inr t \<Longrightarrow> t \<notin> JStr ` set known_types \<Longrightarrow>
   dispatch eng cbs ev st = (None, st)"
  by (auto simp: dispatch_def known_types_def)

lemma invoke_content_absent: "invoke_content eng None name ev st = (None, st)"
  by (simp add: invoke_content_def)

lemma invoke_content_returns:
  "get_prop eng ev ''content'' = Inr c \<Longrightarrow> f (ust st) c = (None, u') \<Longrightarrow>
   invoke_content eng (Some f) name ev st = (None, st\<lparr>ust := u', trace := trace st @ [Invoke name c]\<rparr>)"
  by (simp add: invoke_content_def invoke_def)

lemma invoke_content_throws:
  "get_prop eng ev ''content'' = Inr c \<Longrightarrow> f (ust st) c = (Some e, u') \<Longrightarrow>
   invoke_content eng (Some f) name ev st = (Some e, st\<lparr>ust := u', trace := trace st @ [Invoke name c]\<rparr>)"
  by (simp add: invoke_content_def invoke_def)

text \<open>
  C5. A line that does not start with \<^verbatim>\<open>data: \<close> changes nothing. For a line that
  does, and whose remainder parses to an envelope with a readable \<^verbatim>\<open>type\<close>: the
  content can be read; a type of the routing table delivers the content to the
  callback of that entry and to no other, or does nothing when that callback is absent;
  \<^verbatim>\<open>end\<close> runs the completion of lines 42-47 under the handler of the line; any
  other type changes nothing.
\<close>

theorem lines_dispatched_by_type:
  "(\<not> startsWith line ''data: '' \<longrightarrow> process_line eng (cbs :: 'u callbacks) line st = st)
   \<and> (startsWith line ''data: '' \<and> json_parse eng (drop 6 line) = Inr ev
        \<and> get_prop eng ev ''type'' = Inr t \<longrightarrow>
      (\<exists>c. get_prop eng ev ''content'' = Inr c)
      \<and> ((tn, name, sel) \<in> set routes \<and> t = JStr tn \<and> sel cbs = None \<longrightarrow>
           process_line eng cbs line st = st)
      \<and> ((tn, name, sel) \<in> set routes \<and> t = JStr tn \<and> get_prop eng ev ''content'' = Inr c
           \<and> sel cbs = Some f \<and> f (ust st) c = (None, u') \<longrightarrow>
           process_line eng cbs line st = st\<lparr>ust := u', trace := trace st @ [Invoke name c]\<rparr>)
      \<and> (t = JStr ''end'' \<longrightarrow>
           process_line eng cbs line st =
             (case callComplete cbs st of
                (None, st') \<Rightarrow> st' | (Some e, st') \<Rightarrow> console_error e st'))
      \<and> (t \<notin> JStr ` set known_types \<longrightarrow> process_line eng cbs line st = st))"
proof (intro conjI impI)
  assume "\<not> startsWith line ''data: ''"
  then show "process_line eng cbs line st = st" by (rule process_line_other)
next
  assume h: "startsWith line ''data: '' \<and> json_parse eng (drop 6 line) = Inr ev
      \<and> get_prop eng ev ''type'' = Inr t"
  then have pl: "process_line eng cbs line st =
     (case dispatch eng cbs ev st of (None, st') \<Rightarrow> st' | (Some e, st') \<Rightarrow> console_error e st')"
    by (simp add: process_line_data)
  from h show "\<exists>c. get_prop eng ev ''content'' = Inr c"
    using get_prop_defined by blast
  { assume r: "(tn, name, sel) \<in> set routes \<and> t = JStr tn \<and> sel cbs = None"
    with h have "dispatch eng cbs ev st = invoke_content eng (sel cbs) name ev st"
      using dispatch_route [of tn name sel eng ev cbs st] by simp
    with r pl show "process_line eng cbs line st = st"
      by (simp add: invoke_content_absent) }
  { assume r: "(tn, name, sel) \<in> set routes \<and> t = JStr tn \<and> get_prop eng ev ''content'' = Inr c
           \<and> sel cbs = Some f \<and> f (ust st) c = (None, u')"
    with h have "dispatch eng cbs ev st = invoke_content eng (sel cbs) name ev st"
      using dispatch_route [of tn name sel eng ev cbs st] by simp
    with r pl show "process_line eng cbs line st =
        st\<lparr>ust := u', trace := trace st @ [Invoke name c]\<rparr>"
      by (simp add: invoke_content_returns) }
  { assume "t = JStr ''end''"
    with h pl show "process_line eng cbs line st =
             (case callComplete cbs st of
                (None, st') \<Rightarrow> st' | (Some e, st') \<Rightarrow> console_error e st')"
      by (simp add: dispatch_end) }
  { assume "t \<notin> JStr ` set known_types"
    with h pl show "process_line eng cbs line st = st"
      by (simp add: dispatch_unknown) }
qed

text \<open>The log line of the sample stream reaches \<^verbatim>\<open>onLog\<close> and nothing else.\<close>

theorem lines_dispatched_by_type_witness:
  "startsWith sample_log_line ''data: ''
   \<and> json_parse sample_engine (drop 6 sample_log_line) = Inr sample_log_event
   \<and> get_prop sample_engine sample_log_event ''type'' = Inr (JStr ''log'')
   \<and> (''log'', OnLog, onLog :: nat callbacks \<Rightarrow> nat callback option) \<in> set routes
   \<and> process_line sample_engine all_callbacks sample_log_line (init_state 0) =
       \<lparr>completeCalled = False, ust = 1, trace = [Invoke OnLog (JStr ''parsing'')], reads = 0\<rparr>"
proof -
  have pre: "startsWith sample_log_line ''data: ''
      \<and> json_parse sample_engine (drop 6 sample_log_line) = Inr sample_log_event
      \<and> get_prop sample_engine sample_log_event ''type'' = Inr (JStr ''log'')"
    by code_simp
  have content: "get_prop sample_engine sample_log_event ''content'' = Inr (JStr ''parsing'')"
    by (simp add: sample_log_event_def)
  have route: "(''log'', OnLog, onLog :: nat callbacks \<Rightarrow> nat callback option) \<in> set routes"
    by (simp add: routes_def)
  have call: "onLog all_callbacks = Some counting
      \<and> counting (ust (init_state 0)) (JStr ''parsing'') = (None, 1)"
    by (simp add: all_callbacks_def counting_def init_state_def)
  from pre content route call
    lines_dispatched_by_type [of sample_log_line sample_engine all_callbacks "init_state 0"
      sample_log_event "JStr ''log''" "''log''" OnLog onLog "JStr ''parsing''" counting 1]
  have "process_line sample_engine all_callbacks sample_log_line (init_state 0) =
      \<lparr>completeCalled = False, ust = 1, trace = [Invoke OnLog (JStr ''parsing'')], reads = 0\<rparr>"
    by (simp add: init_state_def)
  with pre route show ?thesis by simp
qed

lemma read_loop_end: "fst (read_loop eng cbs s d buf st) = stream_end s"
  by (induction s arbitrary: d buf st) (simp_all add: Let_def split: prod.splits)

lemma try_streaming_completes:
  "net req = Resolved r \<Longrightarrow> ok r \<Longrightarrow> body r = Some s \<Longrightarrow> stream_end s = None \<Longrightarrow>
   try_streaming eng net cbs req st =
     callComplete cbs (snd (read_loop eng cbs s (decoder_init eng) [] st))"
  using read_loop_end [of eng cbs s "decoder_init eng" "[]" st]
  by (cases "read_loop eng cbs s (decoder_init eng) [] st") (simp add: try_streaming_def)

lemma process_lines_around:
  "process_lines eng cbs (before @ line # after) st =
     process_lines eng cbs after (process_line eng cbs line (process_lines eng cbs before st))"
  by (simp add: process_lines_append)

text \<open>
  C4. A line that starts with \<^verbatim>\<open>data: \<close> and whose remainder \<^verbatim>\<open>JSON.parse\<close> rejects
  adds one diagnostic to the trace and changes nothing else: no callback, so no
  \<^verbatim>\<open>onError\<close>. The lines after it are processed from that state, and the read loop
  ends only as the stream does.
\<close>

theorem malformed_line_only_logged:
  assumes "startsWith line ''data: ''" and "json_parse eng (drop 6 line) = Inl e"
  shows "process_line eng cbs line st = st\<lparr>trace := trace st @ [ConsoleError e]\<rparr>
     \<and> process_lines eng cbs (before @ line # after) st =
         process_lines eng cbs after
           ((process_lines eng cbs before st)
              \<lparr>trace := trace (process_lines eng cbs before st) @ [ConsoleError e]\<rparr>)
     \<and> fst (read_loop eng cbs s d buf st) = stream_end s"
  using assms by (simp add: process_line_malformed process_lines_around read_loop_end)

text \<open>A truncated envelope, then the log line.\<close>

theorem malformed_line_only_logged_witness:
  "startsWith malformed_line ''data: ''
   \<and> json_parse sample_engine (drop 6 malformed_line) = Inl (SyntaxError ''Unexpected token'')
   \<and> process_lines sample_engine all_callbacks [malformed_line, sample_log_line] (init_state 0) =
       \<lparr>completeCalled = False, ust = 1,
          trace = [ConsoleError (SyntaxError ''Unexpected token''), Invoke OnLog (JStr ''parsing'')],
          reads = 0\<rparr>"
proof -
  have pre: "startsWith malformed_line ''data: ''"
    and bad: "json_parse sample_engine (drop 6 malformed_line) = Inl (SyntaxError ''Unexpected token'')"
    by code_simp+
  have next_line: "process_lines sample_engine all_callbacks [sample_log_line]
      \<lparr>completeCalled = False, ust = 0,
         trace = [ConsoleError (SyntaxError ''Unexpected token'')], reads = 0\<rparr> =
       \<lparr>completeCalled = False, ust = 1,
          trace = [ConsoleError (SyntaxError ''Unexpected token''), Invoke OnLog (JStr ''parsing'')],
          reads = 0\<rparr>"
    by code_simp
  from pre bad
    malformed_line_only_logged [where line = malformed_line and eng = sample_engine
      and e = "SyntaxError ''Unexpected token''" and cbs = all_callbacks
      and st = "init_state 0" and before = "[]" and after = "[sample_log_line]"
      and s = Done and d = "()" and buf = "[]"]
  have "process_lines sample_engine all_callbacks ([] @ malformed_line # [sample_log_line]) (init_state 0) =
      process_lines sample_engine all_callbacks [sample_log_line]
        \<lparr>completeCalled = False, ust = 0,
           trace = [ConsoleError (SyntaxError ''Unexpected token'')], reads = 0\<rparr>"
    by (simp add: init_state_def)
  with next_line pre bad show ?thesis by simp
qed


lemma callComplete_throws:
  "\<not> completeCalled st \<Longrightarrow> onComplete cbs = Some g \<Longrightarrow> g (ust st) JUndefined = (Some e, u') \<Longrightarrow>
   callComplete cbs st =
     (Some e, st\<lparr>completeCalled := True, ust := u',
                  trace := trace st @ [Invoke OnComplete JUndefined]\<rparr>)"
  by (simp add: callComplete_def invoke_def)

text \<open>
  C10. When the callback a line is delivered to throws, or \<^verbatim>\<open>onComplete\<close> throws in
  the \<^verbatim>\<open>end\<close> case, the line leaves the invocation and one diagnostic in the trace
  (and, for \<^verbatim>\<open>end\<close>, the latch set): \<^verbatim>\<open>onError\<close> is not invoked for the exception.
  The lines after it are processed, the read loop ends only as the stream does, and on a
  stream that closes the final \<^verbatim>\<open>callComplete\<close> of line 118 runs.
\<close>

theorem callback_exception_only_logged:
  "(startsWith line ''data: '' \<and> json_parse eng (drop 6 line) = Inr ev
      \<and> get_prop eng ev ''type'' = Inr (JStr tn) \<and> get_prop eng ev ''content'' = Inr c
      \<and> (tn, name, sel) \<in> set routes \<and> sel cbs = Some f \<and> f (ust st) c = (Some e, u') \<longrightarrow>
    process_line eng (cbs :: 'u callbacks) line st =
      st\<lparr>ust := u', trace := trace st @ [Invoke name c, ConsoleError e]\<rparr>)
   \<and> (startsWith line ''data: '' \<and> json_parse eng (drop 6 line) = Inr ev
      \<and> get_prop eng ev ''type'' = Inr (JStr ''end'') \<and> \<not> completeCalled st
      \<and> onComplete cbs = Some g \<and> g (ust st) JUndefined = (Some e, u') \<longrightarrow>
    process_line eng cbs line st =
      st\<lparr>completeCalled := True, ust := u',
         trace := trace st @ [Invoke OnComplete JUndefined, ConsoleError e]\<rparr>)
   \<and> process_lines eng cbs (before @ line # after) st =
       process_lines eng cbs after (process_line eng cbs line (process_lines eng cbs before st))
   \<and> fst (read_loop eng cbs s d buf st) = stream_end s
   \<and> (net req = Resolved r \<and> ok r \<and> body r = Some s \<and> stream_end s = None \<longrightarrow>
       try_streaming eng net cbs req st =
         callComplete cbs (snd (read_loop eng cbs s (decoder_init eng) [] st)))"
proof (intro conjI impI)
  assume h: "startsWith line ''data: '' \<and> json_parse eng (drop 6 line) = Inr ev
      \<and> get_prop eng ev ''type'' = Inr (JStr tn) \<and> get_prop eng ev ''content'' = Inr c
      \<and> (tn, name, sel) \<in> set routes \<and> sel cbs = Some f \<and> f (ust st) c = (Some e, u')"
  then have "dispatch eng cbs ev st = invoke_content eng (sel cbs) name ev st"
    using dispatch_route [of tn name sel eng ev cbs st] by simp
  with h show "process_line eng cbs line st =
      st\<lparr>ust := u', trace := trace st @ [Invoke name c, ConsoleError e]\<rparr>"
    by (simp add: process_line_data invoke_content_throws console_error_def)
next
  assume h: "startsWith line ''data: '' \<and> json_parse eng (drop 6 line) = Inr ev
      \<and> get_prop eng ev ''type'' = Inr (JStr ''end'') \<and> \<not> completeCalled st
      \<and> onComplete cbs = Some g \<and> g (ust st) JUndefined = (Some e, u')"
  then show "process_line eng cbs line st =
      st\<lparr>completeCalled := True, ust := u',
         trace := trace st @ [Invoke OnComplete JUndefined, ConsoleError e]\<rparr>"
    by (simp add: process_line_data dispatch_end callComplete_throws console_error_def)
next
  show "process_lines eng cbs (before @ line # after) st =
       process_lines eng cbs after (process_line eng cbs line (process_lines eng cbs before st))"
    by (rule process_lines_around)
next
  show "fst (read_loop eng cbs s d buf st) = stream_end s"
    by (rule read_loop_end)
next
  assume "net req = Resolved r \<and> ok r \<and> body r = Some s \<and> stream_end s = None"
  then show "try_streaming eng net cbs req st =
         callComplete cbs (snd (read_loop eng cbs s (decoder_init eng) [] st))"
    by (simp add: try_streaming_completes)
qed

text \<open>
  An \<^verbatim>\<open>onLog\<close> that throws on the log line; an \<^verbatim>\<open>onComplete\<close> that throws on the
  end line; and a stream of the log line alone, completed after \<^verbatim>\<open>onLog\<close> threw.
\<close>

theorem callback_exception_only_logged_witness:
  "startsWith sample_log_line ''data: ''
   \<and> onLog failing_onLog = Some failing
   \<and> failing 0 (JStr ''parsing'') = (Some (Error ''handler failed''), 1)
   \<and> process_line sample_engine failing_onLog sample_log_line (init_state 0) =
       \<lparr>completeCalled = False, ust = 1,
          trace = [Invoke OnLog (JStr ''parsing''), ConsoleError (Error ''handler failed'')],
          reads = 0\<rparr>
   \<and> onComplete failing_onComplete = Some failing
   \<and> process_line sample_engine failing_onComplete sample_end_line (init_state 0) =
       \<lparr>completeCalled = True, ust = 1,
          trace = [Invoke OnComplete JUndefined, ConsoleError (Error ''handler failed'')],
          reads = 0\<rparr>
   \<and> stream_end log_then_close = None
   \<and> try_streaming sample_engine (net_streaming log_then_close) failing_onLog
        (streaming_request sample_config ''Signal a = 1;'' sample_options) (init_state 0) =
      (None, \<lparr>completeCalled = True, ust = 2,
          trace = [Invoke OnLog (JStr ''parsing''), ConsoleError (Error ''handler failed''),
                   Invoke OnComplete JUndefined],
          reads = 2\<rparr>)"
proof -
  have log: "startsWith sample_log_line ''data: ''
      \<and> json_parse sample_engine (drop 6 sample_log_line) = Inr sample_log_event
      \<and> get_prop sample_engine sample_log_event ''type'' = Inr (JStr ''log'')
      \<and> get_prop sample_engine sample_log_event ''content'' = Inr (JStr ''parsing'')"
    by code_simp
  have route: "(''log'', OnLog, onLog :: nat callbacks \<Rightarrow> nat callback option) \<in> set routes"
    by (simp add: routes_def)
  have thrown: "onLog failing_onLog = Some failing
      \<and> failing (ust (init_state 0)) (JStr ''parsing'') = (Some (Error ''handler failed''), 1)"
    by (simp add: failing_onLog_def all_callbacks_def failing_def init_state_def)
  from log route thrown
    callback_exception_only_logged [where line = sample_log_line and eng = sample_engine
      and ev = sample_log_event and tn = "''log''" and c = "JStr ''parsing''" and name = OnLog
      and sel = onLog and cbs = failing_onLog and f = failing and st = "init_state 0"
      and e = "Error ''handler failed''" and u' = 1]
  have first: "process_line sample_engine failing_onLog sample_log_line (init_state 0) =
       \<lparr>completeCalled = False, ust = 1,
          trace = [Invoke OnLog (JStr ''parsing''), ConsoleError (Error ''handler failed'')],
          reads = 0\<rparr>"
    by (simp add: init_state_def)
  have fin: "startsWith sample_end_line ''data: ''
      \<and> json_parse sample_engine (drop 6 sample_end_line) = Inr sample_end_event
      \<and> get_prop sample_engine sample_end_event ''type'' = Inr (JStr ''end'')"
    by code_simp
  have thrown': "\<not> completeCalled (init_state (0 :: nat))
      \<and> onComplete failing_onComplete = Some failing
      \<and> failing (ust (init_state 0)) JUndefined = (Some (Error ''handler failed''), 1)"
    by (simp add: failing_onComplete_def all_callbacks_def failing_def init_state_def)
  from fin thrown'
    callback_exception_only_logged [where line = sample_end_line and eng = sample_engine
      and ev = sample_end_event and cbs = failing_onComplete and g = failing
      and st = "init_state 0" and e = "Error ''handler failed''" and u' = 1]
  have second: "process_line sample_engine failing_onComplete sample_end_line (init_state 0) =
       \<lparr>completeCalled = True, ust = 1,
          trace = [Invoke OnComplete JUndefined, ConsoleError (Error ''handler failed'')],
          reads = 0\<rparr>"
    by (simp add: init_state_def)
  have resp: "net_streaming log_then_close
        (streaming_request sample_config ''Signal a = 1;'' sample_options)
        = Resolved (streaming_response log_then_close)
      \<and> ok (streaming_response log_then_close)
      \<and> body (streaming_response log_then_close) = Some log_then_close
      \<and> stream_end log_then_close = None"
    by code_simp
  have after_loop: "callComplete failing_onLog
        (snd (read_loop sample_engine failing_onLog log_then_close (decoder_init sample_engine) []
           (init_state 0))) =
      (None, \<lparr>completeCalled = True, ust = 2,
          trace = [Invoke OnLog (JStr ''parsing''), ConsoleError (Error ''handler failed''),
                   Invoke OnComplete JUndefined],
          reads = 2\<rparr>)"
    by code_simp
  from resp
    callback_exception_only_logged [where eng = sample_engine and cbs = failing_onLog
      and net = "net_streaming log_then_close"
      and req = "streaming_request sample_config ''Signal a = 1;'' sample_options"
      and r = "streaming_response log_then_close" and s = log_then_close
      and st = "init_state 0"]
  have third: "try_streaming sample_engine (net_streaming log_then_close) failing_onLog
        (streaming_request sample_config ''Signal a = 1;'' sample_options) (init_state 0) =
      callComplete failing_onLog
        (snd (read_loop sample_engine failing_onLog log_then_close (decoder_init sample_engine) []
           (init_state 0)))"
    by simp
  from log thrown first thrown' second resp third after_loop show ?thesis
    by (simp add: init_state_def)
qed

section \<open>The whole stream\<close>

lemma report_failure_reads:
  "report_failure cbs e (st\<lparr>reads := n\<rparr>) =
     (fst (report_failure cbs e st), (snd (report_failure cbs e st))\<lparr>reads := n\<rparr>)"
proof (cases "invoke (onError cbs) OnError (JStr (message_of e)) st")
  case (Pair x st')
  then show ?thesis
    by (cases x) (simp_all add: report_failure_def invoke_reads callComplete_reads)
qed

lemma settle_reads:
  "settle cbs ending (st\<lparr>reads := n\<rparr>) =
     (fst (settle cbs ending st), (snd (settle cbs ending st))\<lparr>reads := n\<rparr>)"
proof (cases ending)
  case (Some e)
  then show ?thesis by (simp add: settle_def report_failure_reads)
next
  case None
  obtain x st' where c: "callComplete cbs st = (x, st')" by (cases "callComplete cbs st")
  with None show ?thesis
    by (cases x) (simp_all add: settle_def callComplete_reads report_failure_reads)
qed

lemma streaming_run:
  assumes dec: "streaming_decoder eng"
    and resp: "net (streaming_request cfg source opts) = Resolved r"
    and good: "ok r" and stream: "body r = Some s"
  shows "compileWithStreaming eng cfg net source opts cbs u =
     (fst (settle cbs (stream_end s)
        (process_lines eng cbs (complete_lines (stream_text eng s)) (init_state u))),
      (snd (settle cbs (stream_end s)
        (process_lines eng cbs (complete_lines (stream_text eng s)) (init_state u))))
        \<lparr>reads := stream_reads s\<rparr>)"
proof -
  let ?L = "process_lines eng cbs (complete_lines (stream_text eng s)) (init_state u)"
  have loop: "read_loop eng cbs s (decoder_init eng) [] (init_state u) =
      (stream_end s, ?L\<lparr>reads := stream_reads s\<rparr>)"
    using read_loop_spec [OF dec, of "[]" cbs s "decoder_init eng" "init_state u"]
    by (simp add: stream_text_def init_state_def)
  have "compileWithStreaming eng cfg net source opts cbs u =
      settle cbs (stream_end s) (?L\<lparr>reads := stream_reads s\<rparr>)"
  proof (cases "stream_end s")
    case None
    obtain x st' where c: "callComplete cbs (?L\<lparr>reads := stream_reads s\<rparr>) = (x, st')"
      by (cases "callComplete cbs (?L\<lparr>reads := stream_reads s\<rparr>)")
    with None resp good stream loop show ?thesis
      by (cases x) (simp_all add: compileWithStreaming_def try_streaming_def settle_def)
  next
    case (Some e)
    with resp good stream loop show ?thesis
      by (simp add: compileWithStreaming_def try_streaming_def settle_def)
  qed
  then show ?thesis by (simp add: settle_reads)
qed


lemma console_error_completeCalled:
  "completeCalled (console_error e st) = completeCalled st"
  by (simp add: console_error_def)

lemma invoke_content_completeCalled:
  "completeCalled (snd (invoke_content eng f name ev st)) = completeCalled st"
  by (simp add: invoke_content_def invoke_completeCalled split: option.splits sum.splits)

lemma dispatch_completeCalled:
  "get_prop eng ev ''type'' \<noteq> Inr (JStr ''end'') \<Longrightarrow>
   completeCalled (snd (dispatch eng cbs ev st)) = completeCalled st"
  unfolding dispatch_def
  by (cases "get_prop eng ev ''type''") (simp_all add: invoke_content_completeCalled)

lemma process_line_keeps_latch:
  assumes "\<not> is_end_line eng l"
  shows "completeCalled (process_line eng cbs l st) = completeCalled st"
proof (cases "startsWith l ''data: ''")
  case False
  then show ?thesis by (simp add: process_line_def)
next
  case True
  show ?thesis
  proof (cases "json_parse eng (drop 6 l)")
    case (Inl e)
    with True show ?thesis by (simp add: process_line_malformed)
  next
    case (Inr ev)
    with True assms have "get_prop eng ev ''type'' \<noteq> Inr (JStr ''end'')"
      by (simp add: is_end_line_def)
    from dispatch_completeCalled [OF this, of cbs st] True Inr show ?thesis
      by (cases "dispatch eng cbs ev st"; cases "fst (dispatch eng cbs ev st)")
         (simp_all add: process_line_data console_error_completeCalled)
  qed
qed

lemma process_lines_keep_latch:
  "\<forall>l \<in> set ls. \<not> is_end_line eng l \<Longrightarrow>
   completeCalled (process_lines eng cbs ls st) = completeCalled st"
  by (induction ls arbitrary: st) (simp_all add: process_line_keeps_latch)

lemma process_lines_no_data:
  "\<forall>l \<in> set ls. \<not> startsWith l ''data: '' \<Longrightarrow> process_lines eng cbs ls st = st"
  by (induction ls arbitrary: st) (simp_all add: process_line_other)

lemma end_line_completes:
  assumes "is_end_line eng l" and "\<not> completeCalled st" and "onComplete cbs = Some g"
  shows "\<exists>diag. (diag = [] \<or> (\<exists>x. diag = [ConsoleError x]))
     \<and> completeCalled (process_line eng cbs l st)
     \<and> trace (process_line eng cbs l st) = trace st @ Invoke OnComplete JUndefined # diag"
proof -
  from assms(1) obtain ev where data: "startsWith l ''data: ''"
    and ev: "json_parse eng (drop 6 l) = Inr ev"
    and ty: "get_prop eng ev ''type'' = Inr (JStr ''end'')"
    by (auto simp: is_end_line_def split: sum.splits)
  obtain x u' where g: "g (ust st) JUndefined = (x, u')" by (cases "g (ust st) JUndefined")
  have pl: "process_line eng cbs l st =
      (case callComplete cbs st of (None, st') \<Rightarrow> st' | (Some e, st') \<Rightarrow> console_error e st')"
    using data ev ty by (simp add: process_line_data dispatch_end)
  show ?thesis
  proof (cases x)
    case None
    with pl g assms(2,3) show ?thesis
      by (simp add: callComplete_def invoke_def)
  next
    case (Some e)
    with pl g assms(2,3) show ?thesis
      by (simp add: callComplete_def invoke_def console_error_def)
  qed
qed

lemma settle_after_completion:
  "completeCalled st \<Longrightarrow> settle cbs None st = (None, st)"
  by (simp add: settle_def callComplete_def)

lemma ends_with_completion:
  assumes pre: "\<forall>l \<in> set pre. \<not> is_end_line eng l"
    and endl: "is_end_line eng endl"
    and post: "\<forall>l \<in> set post. \<not> startsWith l ''data: ''"
    and supplied: "onComplete cbs = Some g"
  shows "complete_count (trace (process_lines eng cbs pre (init_state u))) = 0
     \<and> (\<exists>diag. (diag = [] \<or> (\<exists>x. diag = [ConsoleError x]))
          \<and> settle cbs None (process_lines eng cbs (pre @ endl # post) (init_state u)) =
              (None, process_lines eng cbs (pre @ endl # post) (init_state u))
          \<and> trace (process_lines eng cbs (pre @ endl # post) (init_state u)) =
              trace (process_lines eng cbs pre (init_state u)) @ Invoke OnComplete JUndefined # diag)"
proof -
  let ?P = "process_lines eng cbs pre (init_state u)"
  have unset: "\<not> completeCalled ?P"
    using process_lines_keep_latch [OF pre, of cbs "init_state u"] by (simp add: init_state_def)
  have "latch_inv cbs ?P"
    by (simp add: process_lines_latch init_state_latch)
  with unset have none: "complete_count (trace ?P) = 0"
    by (simp add: latch_inv_def)
  have all: "process_lines eng cbs (pre @ endl # post) (init_state u) = process_line eng cbs endl ?P"
    by (simp add: process_lines_around process_lines_no_data [OF post])
  from end_line_completes [OF endl unset supplied]
  obtain diag where "diag = [] \<or> (\<exists>x. diag = [ConsoleError x])"
    and "completeCalled (process_line eng cbs endl ?P)"
    and "trace (process_line eng cbs endl ?P) = trace ?P @ Invoke OnComplete JUndefined # diag"
    by blast
  with none all show ?thesis
    by (auto simp: settle_after_completion)
qed

lemma complete_lines_fragment:
  assumes "newline \<notin> set frag" and "txt = [] \<or> last txt = newline"
  shows "complete_lines (txt @ frag) = complete_lines txt"
proof -
  have frag: "complete_lines frag = []"
    using assms(1) by (simp add: complete_lines_def split_no_newline)
  show ?thesis
  proof (cases "txt = []")
    case True
    with frag show ?thesis by (simp add: complete_lines_def split_newline_def)
  next
    case False
    with assms(2) obtain t where t: "txt = t @ [newline]"
      by (metis append_butlast_last_id)
    have nl: "newline \<notin> set (last (split_newline t))"
      by (rule last_split_no_newline)
    have "split_newline (last (split_newline t) @ [newline]) = [last (split_newline t), []]"
      using split_from_acc [OF nl, where acc = "[]" and s = "[newline]"]
      by (simp add: split_newline_def)
    then have "split_newline (t @ [newline]) = butlast (split_newline t) @ [last (split_newline t), []]"
      using split_newline_append [of t "[newline]"] by simp
    then have "last (split_newline txt) = []"
      using t by simp
    with frag show ?thesis
      by (simp add: complete_lines_append)
  qed
qed

lemma sample_decoder_streaming: "streaming_decoder sample_engine"
  by (simp add: streaming_decoder_def sample_engine_def latin1_decode_def)

lemma stream_text_bytes: "stream_bytes s' = stream_bytes s \<Longrightarrow> stream_text eng s' = stream_text eng s"
  by (simp add: stream_text_def)

text \<open>
  C3. Let the decoder keep the contract of a streaming decoder and the response be ok
  with a body stream. Then the invocation is what processing the complete lines of the
  whole decoded text does, each line once and in the order of the text, followed by
  what the end of the stream calls for; the chunks enter only through the number of
  reads. So a second stream with the same bytes and the same end, cut into chunks in any
  other way, settles the promise alike and leaves the same latch, caller state and
  trace. And when the stream closes and its complete lines are lines without an end
  envelope, then a line with one, then lines that are not events, \<^verbatim>\<open>onComplete\<close> is
  invoked after every callback of the earlier lines, which did not invoke it, and
  nothing follows it but at most one diagnostic (when it throws).
\<close>

theorem events_reassembled_in_order:
  assumes dec: "streaming_decoder eng"
    and resp: "net (streaming_request cfg source opts) = Resolved r"
    and good: "ok r" and stream: "body r = Some s"
  shows "compileWithStreaming eng cfg net source opts cbs u =
      (fst (settle cbs (stream_end s)
         (process_lines eng cbs (complete_lines (stream_text eng s)) (init_state u))),
       (snd (settle cbs (stream_end s)
         (process_lines eng cbs (complete_lines (stream_text eng s)) (init_state u))))
         \<lparr>reads := stream_reads s\<rparr>)
   \<and> (net' (streaming_request cfg source opts) = Resolved r' \<and> ok r' \<and> body r' = Some s'
        \<and> stream_bytes s' = stream_bytes s \<and> stream_end s' = stream_end s \<longrightarrow>
      fst (compileWithStreaming eng cfg net' source opts cbs u) =
        fst (compileWithStreaming eng cfg net source opts cbs u)
      \<and> completeCalled (snd (compileWithStreaming eng cfg net' source opts cbs u)) =
        completeCalled (snd (compileWithStreaming eng cfg net source opts cbs u))
      \<and> ust (snd (compileWithStreaming eng cfg net' source opts cbs u)) =
        ust (snd (compileWithStreaming eng cfg net source opts cbs u))
      \<and> trace (snd (compileWithStreaming eng cfg net' source opts cbs u)) =
        trace (snd (compileWithStreaming eng cfg net source opts cbs u)))
   \<and> (stream_end s = None \<and> complete_lines (stream_text eng s) = pre @ endl # post
        \<and> (\<forall>l \<in> set pre. \<not> is_end_line eng l) \<and> is_end_line eng endl
        \<and> (\<forall>l \<in> set post. \<not> startsWith l ''data: '') \<and> onComplete cbs = Some g \<longrightarrow>
      fst (compileWithStreaming eng cfg net source opts cbs u) = None
      \<and> complete_count (trace (process_lines eng cbs pre (init_state u))) = 0
      \<and> (\<exists>diag. (diag = [] \<or> (\<exists>x. diag = [ConsoleError x]))
           \<and> trace (snd (compileWithStreaming eng cfg net source opts cbs u)) =
               trace (process_lines eng cbs pre (init_state u))
                 @ Invoke OnComplete JUndefined # diag))"
proof (intro conjI impI)
  show "compileWithStreaming eng cfg net source opts cbs u =
      (fst (settle cbs (stream_end s)
         (process_lines eng cbs (complete_lines (stream_text eng s)) (init_state u))),
       (snd (settle cbs (stream_end s)
         (process_lines eng cbs (complete_lines (stream_text eng s)) (init_state u))))
         \<lparr>reads := stream_reads s\<rparr>)"
    by (rule streaming_run [where net = net, OF dec resp good stream])
next
  assume h: "net' (streaming_request cfg source opts) = Resolved r' \<and> ok r' \<and> body r' = Some s'
        \<and> stream_bytes s' = stream_bytes s \<and> stream_end s' = stream_end s"
  then have other: "compileWithStreaming eng cfg net' source opts cbs u =
      (fst (settle cbs (stream_end s)
         (process_lines eng cbs (complete_lines (stream_text eng s)) (init_state u))),
       (snd (settle cbs (stream_end s)
         (process_lines eng cbs (complete_lines (stream_text eng s)) (init_state u))))
         \<lparr>reads := stream_reads s'\<rparr>)"
    using streaming_run [where net = net' and cfg = cfg and source = source and opts = opts and r = r' and s = s' and cbs = cbs and u = u, OF dec]
      stream_text_bytes [of s' s eng] by simp
  note this_one = streaming_run [where net = net and cbs = cbs and u = u, OF dec resp good stream]
  show "fst (compileWithStreaming eng cfg net' source opts cbs u) =
        fst (compileWithStreaming eng cfg net source opts cbs u)"
    by (simp add: other this_one)
  show "completeCalled (snd (compileWithStreaming eng cfg net' source opts cbs u)) =
        completeCalled (snd (compileWithStreaming eng cfg net source opts cbs u))"
    by (simp add: other this_one)
  show "ust (snd (compileWithStreaming eng cfg net' source opts cbs u)) =
        ust (snd (compileWithStreaming eng cfg net source opts cbs u))"
    by (simp add: other this_one)
  show "trace (snd (compileWithStreaming eng cfg net' source opts cbs u)) =
        trace (snd (compileWithStreaming eng cfg net source opts cbs u))"
    by (simp add: other this_one)
next
  assume h: "stream_end s = None \<and> complete_lines (stream_text eng s) = pre @ endl # post
        \<and> (\<forall>l \<in> set pre. \<not> is_end_line eng l) \<and> is_end_line eng endl
        \<and> (\<forall>l \<in> set post. \<not> startsWith l ''data: '') \<and> onComplete cbs = Some g"
  note run = streaming_run [where net = net and cbs = cbs and u = u, OF dec resp good stream]
  from h ends_with_completion [of pre eng endl post cbs g u]
  obtain diag where diag: "diag = [] \<or> (\<exists>x. diag = [ConsoleError x])"
    and none: "complete_count (trace (process_lines eng cbs pre (init_state u))) = 0"
    and fin: "settle cbs None (process_lines eng cbs (pre @ endl # post) (init_state u)) =
              (None, process_lines eng cbs (pre @ endl # post) (init_state u))"
    and tr: "trace (process_lines eng cbs (pre @ endl # post) (init_state u)) =
              trace (process_lines eng cbs pre (init_state u)) @ Invoke OnComplete JUndefined # diag"
    by blast
  from h run fin show "fst (compileWithStreaming eng cfg net source opts cbs u) = None"
    by simp
  from none show "complete_count (trace (process_lines eng cbs pre (init_state u))) = 0" .
  from h run fin tr diag
  show "\<exists>diag. (diag = [] \<or> (\<exists>x. diag = [ConsoleError x]))
           \<and> trace (snd (compileWithStreaming eng cfg net source opts cbs u)) =
               trace (process_lines eng cbs pre (init_state u))
                 @ Invoke OnComplete JUndefined # diag"
    by auto
qed

text \<open>
  The sample stream cuts the log line in two and puts the blank line after the
  blueprint in a chunk of its own; the same bytes in a single chunk give the same trace.
\<close>

theorem events_reassembled_in_order_witness:
  "streaming_decoder sample_engine
   \<and> stream_bytes sample_stream_whole = stream_bytes sample_stream
   \<and> stream_reads sample_stream_whole = 2 \<and> stream_reads sample_stream = 4
   \<and> complete_lines (stream_text sample_engine sample_stream) =
       [sample_log_line, [], sample_blueprint_line, []] @ sample_end_line # [[]]
   \<and> is_end_line sample_engine sample_end_line
   \<and> fst (compileWithStreaming sample_engine sample_config (net_streaming sample_stream)
          ''Signal a = 1;'' sample_options all_callbacks 0) = None
   \<and> trace (snd (compileWithStreaming sample_engine sample_config (net_streaming sample_stream)
          ''Signal a = 1;'' sample_options all_callbacks 0)) =
       [Invoke OnLog (JStr ''parsing''), Invoke OnBlueprint (JStr ''0eNG...''),
        Invoke OnComplete JUndefined]
   \<and> trace (snd (compileWithStreaming sample_engine sample_config
          (net_streaming sample_stream_whole) ''Signal a = 1;'' sample_options all_callbacks 0)) =
       trace (snd (compileWithStreaming sample_engine sample_config (net_streaming sample_stream)
          ''Signal a = 1;'' sample_options all_callbacks 0))"
proof -
  let ?req = "streaming_request sample_config ''Signal a = 1;'' sample_options"
  let ?pre = "[sample_log_line, [], sample_blueprint_line, []]"
  have resp: "net_streaming sample_stream ?req = Resolved (streaming_response sample_stream)"
    and good: "ok (streaming_response sample_stream)"
    and stream: "body (streaming_response sample_stream) = Some sample_stream"
    by code_simp+
  have other: "net_streaming sample_stream_whole ?req = Resolved (streaming_response sample_stream_whole)
      \<and> ok (streaming_response sample_stream_whole)
      \<and> body (streaming_response sample_stream_whole) = Some sample_stream_whole
      \<and> stream_bytes sample_stream_whole = stream_bytes sample_stream
      \<and> stream_end sample_stream_whole = stream_end sample_stream"
    by code_simp
  have counts: "stream_reads sample_stream_whole = 2 \<and> stream_reads sample_stream = 4"
    by code_simp
  have shape: "stream_end sample_stream = None
      \<and> complete_lines (stream_text sample_engine sample_stream) = ?pre @ sample_end_line # [[]]
      \<and> (\<forall>l \<in> set ?pre. \<not> is_end_line sample_engine l)
      \<and> is_end_line sample_engine sample_end_line
      \<and> (\<forall>l \<in> set [[]]. \<not> startsWith l ''data: '')"
    by code_simp
  have supplied: "onComplete all_callbacks = Some counting"
    by (simp add: all_callbacks_def)
  have before_end: "trace (process_lines sample_engine all_callbacks ?pre (init_state 0)) =
      [Invoke OnLog (JStr ''parsing''), Invoke OnBlueprint (JStr ''0eNG...'')]"
    by code_simp
  note inst = events_reassembled_in_order [where eng = sample_engine and cfg = sample_config
      and net = "net_streaming sample_stream" and source = "''Signal a = 1;''"
      and opts = sample_options and r = "streaming_response sample_stream" and s = sample_stream
      and cbs = all_callbacks and u = 0
      and net' = "net_streaming sample_stream_whole" and r' = "streaming_response sample_stream_whole"
      and s' = sample_stream_whole and pre = ?pre and endl = sample_end_line and post = "[[]]"
      and g = counting, OF sample_decoder_streaming resp good stream]
  from inst other
  have same: "trace (snd (compileWithStreaming sample_engine sample_config
          (net_streaming sample_stream_whole) ''Signal a = 1;'' sample_options all_callbacks 0)) =
       trace (snd (compileWithStreaming sample_engine sample_config (net_streaming sample_stream)
          ''Signal a = 1;'' sample_options all_callbacks 0))"
    by blast
  from inst shape supplied
  have fulfilled: "fst (compileWithStreaming sample_engine sample_config (net_streaming sample_stream)
          ''Signal a = 1;'' sample_options all_callbacks 0) = None"
    and "\<exists>diag. (diag = [] \<or> (\<exists>x. diag = [ConsoleError x]))
         \<and> trace (snd (compileWithStreaming sample_engine sample_config (net_streaming sample_stream)
              ''Signal a = 1;'' sample_options all_callbacks 0)) =
             trace (process_lines sample_engine all_callbacks ?pre (init_state 0))
               @ Invoke OnComplete JUndefined # diag"
    by blast+
  then obtain diag where "diag = [] \<or> (\<exists>x. diag = [ConsoleError x])"
    and ordered: "trace (snd (compileWithStreaming sample_engine sample_config
          (net_streaming sample_stream) ''Signal a = 1;'' sample_options all_callbacks 0)) =
        [Invoke OnLog (JStr ''parsing''), Invoke OnBlueprint (JStr ''0eNG...'')]
          @ Invoke OnComplete JUndefined # diag"
    using before_end by auto
  have actual: "trace (snd (compileWithStreaming sample_engine sample_config
          (net_streaming sample_stream) ''Signal a = 1;'' sample_options all_callbacks 0)) =
       [Invoke OnLog (JStr ''parsing''), Invoke OnBlueprint (JStr ''0eNG...''),
        Invoke OnComplete JUndefined]"
    by code_simp
  from sample_decoder_streaming other counts shape fulfilled actual same
  show ?thesis by simp
qed

text \<open>
  C9. When the decoded text of the stream is a part that is empty or ends in a newline,
  followed by a fragment without newline, the fragment is not among the complete lines
  and the invocation is what processing the lines of the first part alone does:
  the fragment, empty or not, an event line or not, is never parsed or delivered.
\<close>

theorem trailing_fragment_discarded:
  assumes dec: "streaming_decoder eng"
    and resp: "net (streaming_request cfg source opts) = Resolved r"
    and good: "ok r" and stream: "body r = Some s"
    and parts: "stream_text eng s = terminated @ frag"
    and frag: "newline \<notin> set frag"
    and closed: "terminated = [] \<or> last terminated = newline"
  shows "complete_lines (terminated @ frag) = complete_lines terminated
   \<and> compileWithStreaming eng cfg net source opts cbs u =
      (fst (settle cbs (stream_end s)
         (process_lines eng cbs (complete_lines terminated) (init_state u))),
       (snd (settle cbs (stream_end s)
         (process_lines eng cbs (complete_lines terminated) (init_state u))))
         \<lparr>reads := stream_reads s\<rparr>)"
  using streaming_run [where net = net and cbs = cbs and u = u, OF dec resp good stream] complete_lines_fragment [OF frag closed] parts
  by simp


text \<open>
  A log line, a newline, and a blueprint line that no newline follows before the stream
  closes: \<^verbatim>\<open>onBlueprint\<close> is never invoked.
\<close>

theorem trailing_fragment_discarded_witness:
  "streaming_decoder sample_engine
   \<and> stream_text sample_engine unterminated_stream = (sample_log_line @ [newline]) @ sample_blueprint_line
   \<and> newline \<notin> set sample_blueprint_line
   \<and> last (sample_log_line @ [newline]) = newline
   \<and> compileWithStreaming sample_engine sample_config (net_streaming unterminated_stream)
        ''Signal a = 1;'' sample_options all_callbacks 0 =
       (None, \<lparr>completeCalled = True, ust = 2,
          trace = [Invoke OnLog (JStr ''parsing''), Invoke OnComplete JUndefined],
          reads = 3\<rparr>)"
proof -
  let ?req = "streaming_request sample_config ''Signal a = 1;'' sample_options"
  let ?txt = "sample_log_line @ [newline]"
  have resp: "net_streaming unterminated_stream ?req = Resolved (streaming_response unterminated_stream)"
    and good: "ok (streaming_response unterminated_stream)"
    and stream: "body (streaming_response unterminated_stream) = Some unterminated_stream"
    by code_simp+
  have parts: "stream_text sample_engine unterminated_stream = ?txt @ sample_blueprint_line"
    and frag: "newline \<notin> set sample_blueprint_line"
    and closed: "?txt = [] \<or> last ?txt = newline"
    by code_simp+
  have settled: "(fst (settle all_callbacks (stream_end unterminated_stream)
         (process_lines sample_engine all_callbacks (complete_lines ?txt) (init_state 0))),
       (snd (settle all_callbacks (stream_end unterminated_stream)
         (process_lines sample_engine all_callbacks (complete_lines ?txt) (init_state 0))))
         \<lparr>reads := stream_reads unterminated_stream\<rparr>) =
       (None, \<lparr>completeCalled = True, ust = 2,
          trace = [Invoke OnLog (JStr ''parsing''), Invoke OnComplete JUndefined],
          reads = 3\<rparr>)"
    by code_simp
  from trailing_fragment_discarded [where eng = sample_engine and cfg = sample_config
      and net = "net_streaming unterminated_stream" and source = "''Signal a = 1;''"
      and opts = sample_options and r = "streaming_response unterminated_stream"
      and s = unterminated_stream and cbs = all_callbacks and u = 0
      and terminated = ?txt and frag = sample_blueprint_line,
      OF sample_decoder_streaming resp good stream parts frag closed] settled
  have "compileWithStreaming sample_engine sample_config (net_streaming unterminated_stream)
        ''Signal a = 1;'' sample_options all_callbacks 0 =
       (None, \<lparr>completeCalled = True, ust = 2,
          trace = [Invoke OnLog (JStr ''parsing''), Invoke OnComplete JUndefined],
          reads = 3\<rparr>)"
    by simp
  with sample_decoder_streaming parts frag closed show ?thesis by simp
qed

end
